theory Spec2Isabelle
  imports Main "HOL-Library.Sublist" "HOL-Library.Multiset"
begin

section \<open>The environment of the script\<close>

subsection \<open>JavaScript numbers used as indices\<close>

text \<open>
  \<open>selected\<close> is a JavaScript number.  Every value it takes is an integer or, after
  \<open>x % 0\<close>, NaN.  The operators below are the ones the key handler applies to it.
\<close>

datatype jsnum = Num int | NaN

fun js_add :: "jsnum \<Rightarrow> int \<Rightarrow> jsnum" where
  "js_add (Num a) b = Num (a + b)"
| "js_add NaN b = NaN"

text \<open>The remainder operator \<open>%\<close>: the sign follows the dividend, and \<open>x % 0\<close> is NaN.\<close>

fun js_rem :: "jsnum \<Rightarrow> int \<Rightarrow> jsnum" where
  "js_rem (Num a) b = (if b = 0 then NaN else Num (sgn a * (\<bar>a\<bar> mod \<bar>b\<bar>)))"
| "js_rem NaN b = NaN"

text \<open>\<open>a >= b\<close>: every comparison with NaN is false.\<close>

fun js_ge :: "jsnum \<Rightarrow> int \<Rightarrow> bool" where
  "js_ge (Num a) b = (b \<le> a)"
| "js_ge NaN b = False"

text \<open>\<open>xs[i]\<close>: \<open>undefined\<close> (here \<open>None\<close>) outside the array and at NaN.\<close>

fun js_index :: "'a list \<Rightarrow> jsnum \<Rightarrow> 'a option" where
  "js_index xs (Num i) = (if 0 \<le> i \<and> i < int (length xs) then Some (xs ! nat i) else None)"
| "js_index xs NaN = None"

subsection \<open>Strings\<close>

definition startsWith :: "string \<Rightarrow> string \<Rightarrow> bool" where
  "startsWith s p = (take (length p) s = p)"

subsection \<open>Array.prototype.sort\<close>

text \<open>
  \<open>Array.prototype.sort\<close> with a comparator is a stable sort.  It is modelled by the
  stable insertion sort: an element is placed in front of the first element that the
  comparator does not put before it.
\<close>

fun sort_insert :: "('a \<Rightarrow> 'a \<Rightarrow> int) \<Rightarrow> 'a \<Rightarrow> 'a list \<Rightarrow> 'a list" where
  "sort_insert cmp x [] = [x]"
| "sort_insert cmp x (y # ys) = (if cmp x y \<le> 0 then x # y # ys else y # sort_insert cmp x ys)"

fun array_sort :: "('a \<Rightarrow> 'a \<Rightarrow> int) \<Rightarrow> 'a list \<Rightarrow> 'a list" where
  "array_sort cmp [] = []"
| "array_sort cmp (x # xs) = sort_insert cmp x (array_sort cmp xs)"

subsection \<open>Node's \<open>path\<close> module, POSIX flavour\<close>

text \<open>
  The script calls \<open>path.resolve\<close>, \<open>path.join\<close>, \<open>path.dirname\<close> and
  \<open>path.extname\<close>.  They belong to the platform, not to the script; the definitions
  below follow the POSIX implementation of Node's \<open>lib/path.js\<close>.
\<close>

fun split_slash :: "string \<Rightarrow> string list" where
  "split_slash [] = [[]]"
| "split_slash (c # cs) =
     (if c = CHR ''/'' then [] # split_slash cs
      else (case split_slash cs of [] \<Rightarrow> [[c]] | s # ss \<Rightarrow> (c # s) # ss))"

fun join_slash :: "string list \<Rightarrow> string" where
  "join_slash [] = []"
| "join_slash [s] = s"
| "join_slash (s # t # ss) = s @ CHR ''/'' # join_slash (t # ss)"

text \<open>
  \<open>normalizeString\<close> walks the segments between slashes: empty segments and \<open>.\<close> are
  dropped, \<open>..\<close> removes the segment before it (or is kept, when the path is relative and
  nothing is left to remove).  \<open>res\<close> holds the segments kept so far, last first.
\<close>

fun normalizeString :: "bool \<Rightarrow> string list \<Rightarrow> string list \<Rightarrow> string list" where
  "normalizeString allowAboveRoot res [] = rev res"
| "normalizeString allowAboveRoot res (s # ss) =
     (if s = [] \<or> s = ''.'' then normalizeString allowAboveRoot res ss
      else if s = ''..'' then
        (case res of
           [] \<Rightarrow> normalizeString allowAboveRoot (if allowAboveRoot then [''..''] else []) ss
         | r # rs \<Rightarrow>
             if r = ''..'' then
               normalizeString allowAboveRoot (if allowAboveRoot then ''..'' # res else res) ss
             else normalizeString allowAboveRoot rs ss)
      else normalizeString allowAboveRoot (s # res) ss)"

definition isAbsolute :: "string \<Rightarrow> bool" where
  "isAbsolute p = (p \<noteq> [] \<and> hd p = CHR ''/'')"

text \<open>\<open>path.resolve(p)\<close> with one argument; \<open>cwd\<close> is \<open>process.cwd()\<close>.\<close>

definition resolve :: "string \<Rightarrow> string \<Rightarrow> string" where
  "resolve cwd p =
     (let r1 = (if p = [] then [] else p @ ''/'');
          a1 = isAbsolute p;
          r2 = (if a1 \<or> cwd = [] then r1 else cwd @ ''/'' @ r1);
          a2 = (a1 \<or> isAbsolute cwd);
          n = join_slash (normalizeString (\<not> a2) [] (split_slash r2))
      in if a2 then CHR ''/'' # n else if n \<noteq> [] then n else ''.'')"

definition normalize :: "string \<Rightarrow> string" where
  "normalize p =
     (if p = [] then ''.''
      else
        (let isAbs = (hd p = CHR ''/'');
             trailingSeparator = (last p = CHR ''/'');
             n = join_slash (normalizeString (\<not> isAbs) [] (split_slash p))
         in if n = [] then (if isAbs then ''/'' else if trailingSeparator then ''./'' else ''.'')
            else (let n' = (if trailingSeparator then n @ ''/'' else n)
                  in if isAbs then CHR ''/'' # n' else n')))"

text \<open>\<open>path.join(a, b)\<close>: the non-empty arguments joined by a slash, then normalized.\<close>

definition join :: "string \<Rightarrow> string \<Rightarrow> string" where
  "join a b =
     (let joined = (if a = [] then b else if b = [] then a else a @ CHR ''/'' # b)
      in if joined = [] then ''.'' else normalize joined)"

text \<open>
  \<open>path.dirname(p)\<close> scans from the end down to index 1: trailing slashes are skipped, then
  the characters of the last segment, and the path is cut at the slash in front of it.
\<close>

definition dirname :: "string \<Rightarrow> string" where
  "dirname p =
     (if p = [] then ''.''
      else
        (let hasRoot = (hd p = CHR ''/'');
             r = dropWhile (\<lambda>c. c \<noteq> CHR ''/'') (dropWhile (\<lambda>c. c = CHR ''/'') (rev (tl p)))
         in if r = [] then (if hasRoot then ''/'' else ''.'')
            else if hasRoot \<and> length r = 1 then ''//''
            else take (length r) p))"

text \<open>
  \<open>path.extname(p)\<close>: the backward scan of Node, one call of \<open>extname_loop\<close> for each
  index from the last one down, stopping at the slash in front of the last segment.
\<close>

record ext_scan =
  startDot :: int
  startPart :: int
  endPos :: int
  matchedSlash :: bool
  preDotState :: int

fun extname_loop :: "string \<Rightarrow> nat \<Rightarrow> ext_scan \<Rightarrow> ext_scan" where
  "extname_loop p 0 s = s"
| "extname_loop p (Suc i) s =
     (let code = p ! i in
      if code = CHR ''/'' then
        (if \<not> matchedSlash s then s\<lparr>startPart := int i + 1\<rparr>
         else extname_loop p i s)
      else
        (let s1 = (if endPos s = - 1 then s\<lparr>endPos := int i + 1, matchedSlash := False\<rparr> else s);
             s2 = (if code = CHR ''.'' then
                     (if startDot s1 = - 1 then s1\<lparr>startDot := int i\<rparr>
                      else if preDotState s1 \<noteq> 1 then s1\<lparr>preDotState := 1\<rparr>
                      else s1)
                   else if startDot s1 \<noteq> - 1 then s1\<lparr>preDotState := - 1\<rparr>
                   else s1)
         in extname_loop p i s2))"

definition extname :: "string \<Rightarrow> string" where
  "extname p =
     (let s = extname_loop p (length p)
                \<lparr>startDot = - 1, startPart = 0, endPos = - 1, matchedSlash = True,
                 preDotState = 0\<rparr>
      in if startDot s = - 1 \<or> endPos s = - 1 \<or> preDotState s = 0 \<or>
            (preDotState s = 1 \<and> startDot s = endPos s - 1 \<and> startDot s = startPart s + 1)
         then []
         else take (nat (endPos s) - nat (startDot s)) (drop (nat (startDot s)) p))"

subsection \<open>The file system and child processes\<close>

datatype dirent_type = File | Directory | Other

record Dirent =
  dname :: string
  dtype :: dirent_type

definition isDirectory :: "Dirent \<Rightarrow> bool" where
  "isDirectory d = (dtype d = Directory)"

definition isFile :: "Dirent \<Rightarrow> bool" where
  "isFile d = (dtype d = File)"

text \<open>
  \<open>fs.readdirSync(dir, {withFileTypes: true})\<close> at one moment: the children of \<open>dir\<close> in
  the order the system returns them, or \<open>None\<close> where the call throws.
\<close>

type_synonym filesystem = "string \<Rightarrow> Dirent list option"

datatype error = FilesystemError string

record spawn_request =
  cmd :: string
  args :: "string list"
  stdio :: string
  shell :: bool
  env :: "(string \<times> string) list"
  spawn_cwd :: string

record spawn_result =
  status :: "int option"
  spawn_error :: "string option"

type_synonym spawner = "spawn_request \<Rightarrow> spawn_result"

record config =
  argv2 :: "string option"
  cwd :: string
  platform :: string
  isTTY :: bool
  process_env :: "(string \<times> string) list"
  localeCompare :: "string \<Rightarrow> string \<Rightarrow> int"

section \<open>The script\<close>

subsection \<open>Config\<close>

definition ROOT_DIR :: "config \<Rightarrow> string" where
  "ROOT_DIR cfg =
     (case argv2 cfg of
        None \<Rightarrow> cwd cfg
      | Some a \<Rightarrow> if a \<noteq> [] then resolve (cwd cfg) a else cwd cfg)"

definition EXTENSIONS :: "string list" where
  "EXTENSIONS = [''.ts'', ''.js'']"

definition IS_WIN :: "config \<Rightarrow> bool" where
  "IS_WIN cfg = (platform cfg = ''win32'')"

subsection \<open>State\<close>

record Entry =
  name :: string
  isDir :: bool

text \<open>What the script writes to the terminal, one event for each call that writes.\<close>

datatype event =
    ClearScreen
  | Header string
  | EntryLine Entry bool
  | Separator
  | RunBanner string
  | SetRawMode bool
  | StdinPause
  | StdinResume
  | Spawn spawn_request
  | SpawnErrorMessage string
  | AckPrompt
  | NoFilesMessage string

text \<open>
  The three module variables, the variable \<open>entries\<close> of \<open>main\<close> that the key handler
  closes over, and the terminal output so far.
\<close>

record state =
  currentDir :: string
  selected :: jsnum
  waitingForKey :: bool
  entries :: "Entry list"
  out :: "event list"

datatype outcome = Running state | Exited int state

record key =
  key_name :: "string option"
  ctrl :: bool

subsection \<open>Helpers\<close>

definition getEntries :: "config \<Rightarrow> filesystem \<Rightarrow> string \<Rightarrow> error + Entry list" where
  "getEntries cfg fs dir =
     (case fs dir of
        None \<Rightarrow> Inl (FilesystemError dir)
      | Some items \<Rightarrow>
          (let dirs =
                 array_sort (\<lambda>a b. localeCompare cfg (name a) (name b))
                   (map (\<lambda>d. \<lparr>name = dname d, isDir = True\<rparr>)
                      (filter (\<lambda>d. isDirectory d \<and> \<not> startsWith (dname d) ''.'') items));
               files =
                 array_sort (\<lambda>a b. localeCompare cfg (name a) (name b))
                   (map (\<lambda>d. \<lparr>name = dname d, isDir = False\<rparr>)
                      (filter (\<lambda>d. isFile d \<and> extname (dname d) \<in> set EXTENSIONS) items));
               withParent =
                 (if resolve (cwd cfg) dir \<noteq> resolve (cwd cfg) (ROOT_DIR cfg)
                  then \<lparr>name = ''..'', isDir = True\<rparr> # dirs @ files
                  else dirs @ files)
           in Inr withParent))"

text \<open>
  \<open>render\<close> writes the header, one line for each entry (marked when its index is
  \<open>selected\<close>) and the separator.  The preview it reads for a selected file is thrown
  away, and \<open>getPreview\<close> catches its own read error, so neither shows.
\<close>

definition render :: "state \<Rightarrow> state" where
  "render st =
     st\<lparr>out := out st @ [ClearScreen, Header (currentDir st)] @
          map (\<lambda>(i, e). EntryLine e (Num (int i) = selected st))
            (zip [0..<length (entries st)] (entries st)) @
          [Separator]\<rparr>"

definition runFile_command :: "bool \<Rightarrow> string \<Rightarrow> string \<Rightarrow> string \<times> string list" where
  "runFile_command isWin ext fullPath =
     (if ext = ''.ts'' then
        (if isWin then (''cmd'', [''/c'', ''npx'', ''tsx'', fullPath])
         else (''npx'', [''tsx'', fullPath]))
      else (if isWin then ''cmd'' else ''node'',
            if isWin then [''/c'', ''node'', fullPath] else [fullPath]))"

definition runFile_request :: "config \<Rightarrow> string \<Rightarrow> string \<Rightarrow> spawn_request" where
  "runFile_request cfg dir file =
     (let fullPath = resolve (cwd cfg) (join dir file);
          ext = extname file;
          ca = runFile_command (IS_WIN cfg) ext fullPath
      in \<lparr>cmd = fst ca, args = snd ca, stdio = ''inherit'', shell = False,
          env = process_env cfg, spawn_cwd = dirname fullPath\<rparr>)"

definition runFile :: "config \<Rightarrow> spawner \<Rightarrow> string \<Rightarrow> state \<Rightarrow> state" where
  "runFile cfg sp file st =
     (let req = runFile_request cfg (currentDir st) file;
          result = sp req
      in st\<lparr>out := out st @
            [ClearScreen, RunBanner file, Separator] @
            (if isTTY cfg then [SetRawMode False] else []) @
            [StdinPause, Spawn req] @
            (case spawn_error result of None \<Rightarrow> [] | Some m \<Rightarrow> [SpawnErrorMessage m]) @
            [StdinResume] @
            (if isTTY cfg then [SetRawMode True] else []) @
            [Separator, AckPrompt]\<rparr>)"

subsection \<open>Main\<close>

text \<open>
  \<open>main\<close> up to the registration of the key handler.  An exception of \<open>getEntries\<close> is
  not caught anywhere: it is the \<open>Inl\<close> result.
\<close>

definition main :: "config \<Rightarrow> filesystem \<Rightarrow> error + outcome" where
  "main cfg fs =
     (let st0 = \<lparr>currentDir = ROOT_DIR cfg, selected = Num 0, waitingForKey = False,
                 entries = [], out = []\<rparr>
      in case getEntries cfg fs (currentDir st0) of
           Inl e \<Rightarrow> Inl e
         | Inr es \<Rightarrow>
             if length es = 0
             then Inr (Exited 0 (st0\<lparr>entries := es, out := [NoFilesMessage (currentDir st0)]\<rparr>))
             else Inr (Running (render (st0\<lparr>entries := es,
                                  out := (if isTTY cfg then [SetRawMode True] else [])\<rparr>))))"

text \<open>
  One call of the \<open>keypress\<close> listener.  \<open>fs\<close> is the file system at the time of the
  call (the listener reads it at most once) and \<open>sp\<close> is what \<open>spawnSync\<close> answers.
\<close>

definition keypress :: "config \<Rightarrow> filesystem \<Rightarrow> spawner \<Rightarrow> key option \<Rightarrow> state \<Rightarrow> error + outcome" where
  "keypress cfg fs sp k st =
     (case k of
        None \<Rightarrow> Inr (Running st)
      | Some ky \<Rightarrow>
          if waitingForKey st then
            (case getEntries cfg fs (currentDir st) of
               Inl e \<Rightarrow> Inl e
             | Inr es \<Rightarrow>
                 Inr (Running (render (st\<lparr>waitingForKey := False, entries := es,
                        selected := (if js_ge (selected st) (int (length es))
                                     then Num (int (length es) - 1) else selected st)\<rparr>))))
          else if key_name ky = Some ''q'' \<or> (ctrl ky \<and> key_name ky = Some ''c'') then
            Inr (Exited 0 (st\<lparr>out := out st @ [ClearScreen]\<rparr>))
          else if key_name ky = Some ''r'' then
            (case getEntries cfg fs (currentDir st) of
               Inl e \<Rightarrow> Inl e
             | Inr es \<Rightarrow> Inr (Running (render (st\<lparr>entries := es, selected := Num 0\<rparr>))))
          else if key_name ky = Some ''up'' then
            Inr (Running (render (st\<lparr>selected :=
                   js_rem (js_add (js_add (selected st) (- 1)) (int (length (entries st))))
                     (int (length (entries st)))\<rparr>)))
          else if key_name ky = Some ''down'' then
            Inr (Running (render (st\<lparr>selected :=
                   js_rem (js_add (selected st) 1) (int (length (entries st)))\<rparr>)))
          else if key_name ky = Some ''return'' then
            (case js_index (entries st) (selected st) of
               None \<Rightarrow> Inr (Running st)
             | Some cur \<Rightarrow>
                 if isDir cur then
                   (let dir' = (if name cur = ''..'' then dirname (currentDir st)
                                else join (currentDir st) (name cur))
                    in case getEntries cfg fs dir' of
                         Inl e \<Rightarrow> Inl e
                       | Inr es \<Rightarrow>
                           Inr (Running (render (st\<lparr>currentDir := dir', selected := Num 0,
                                                    entries := es\<rparr>))))
                 else Inr (Running ((runFile cfg sp (name cur) st)\<lparr>waitingForKey := True\<rparr>)))
          else Inr (Running st))"

subsection \<open>Paths and names the platform hands out\<close>

text \<open>
  The segments of a path: what is left between its slashes once empty segments and \<open>.\<close> are
  dropped and each \<open>..\<close> has removed the segment before it.
\<close>

definition segments :: "string \<Rightarrow> string list" where
  "segments p = normalizeString False [] (split_slash p)"

text \<open>
  An absolute path in normal form is a slash followed by its segments joined by slashes:
  no empty segment, no \<open>.\<close> or \<open>..\<close>, no slash at the end.  \<open>process.cwd()\<close> is such a path.
\<close>

definition normalized_absolute :: "string \<Rightarrow> bool" where
  "normalized_absolute p = (p = CHR ''/'' # join_slash (segments p))"

text \<open>\<open>is_within root p\<close>: \<open>p\<close> is \<open>root\<close> or lies below it.\<close>

definition is_within :: "string \<Rightarrow> string \<Rightarrow> bool" where
  "is_within root p = prefix (segments root) (segments p)"

text \<open>A segment of a path in normal form, and the path with given segments.\<close>

definition clean_seg :: "string \<Rightarrow> bool" where
  "clean_seg s = (s \<noteq> [] \<and> CHR ''/'' \<notin> set s \<and> s \<noteq> ''.'' \<and> s \<noteq> ''..'')"

definition abs_path :: "string list \<Rightarrow> string" where
  "abs_path segs = CHR ''/'' # join_slash segs"

text \<open>
  The name of a directory entry is not empty and holds no slash, on every POSIX file
  system.
\<close>

definition posix_names :: "filesystem \<Rightarrow> bool" where
  "posix_names fs =
     (\<forall>p items. fs p = Some items \<longrightarrow>
        (\<forall>d\<in>set items. dname d \<noteq> [] \<and> CHR ''/'' \<notin> set (dname d)))"

subsection \<open>Runs of the script\<close>

text \<open>
  The states the script can be in: the one \<open>main\<close> starts the handler with, and every state
  a key event leads to from there.  The file system (any with POSIX names), the answer of
  \<open>spawnSync\<close> and the key are arbitrary at every event.
\<close>

inductive reachable :: "config \<Rightarrow> state \<Rightarrow> bool" for cfg :: config where
  start: "posix_names fs \<Longrightarrow> main cfg fs = Inr (Running st) \<Longrightarrow> reachable cfg st"
| event: "reachable cfg st \<Longrightarrow> posix_names fs \<Longrightarrow>
          keypress cfg fs sp k st = Inr (Running st') \<Longrightarrow> reachable cfg st'"

text \<open>
  \<open>moves_to cfg fs sp k c st j\<close>: the key named \<open>k\<close> takes \<open>st\<close> to a browsing state that has
  index \<open>j\<close> selected and the same directory and entries.
\<close>

definition moves_to :: "config \<Rightarrow> filesystem \<Rightarrow> spawner \<Rightarrow> string \<Rightarrow> bool \<Rightarrow> state \<Rightarrow> int \<Rightarrow> bool" where
  "moves_to cfg fs sp k c st j =
     (\<exists>st'. keypress cfg fs sp (Some \<lparr>key_name = Some k, ctrl = c\<rparr>) st = Inr (Running st') \<and>
        selected st' = Num j \<and> entries st' = entries st \<and> currentDir st' = currentDir st \<and>
        \<not> waitingForKey st')"

subsection \<open>A sample run\<close>

text \<open>A comparator that orders names by their character codes.\<close>

fun compare_codes :: "string \<Rightarrow> string \<Rightarrow> int" where
  "compare_codes [] [] = 0"
| "compare_codes [] (b # bs) = - 1"
| "compare_codes (a # as) [] = 1"
| "compare_codes (a # as) (b # bs) =
     (if (of_char a :: nat) < of_char b then - 1
      else if (of_char b :: nat) < of_char a then 1
      else compare_codes as bs)"

definition sample_cfg :: config where
  "sample_cfg =
     \<lparr>argv2 = Some ''/tmp/proj'', cwd = ''/home/user'', platform = ''linux'', isTTY = True,
      process_env = [(''HOME'', ''/home/user'')], localeCompare = compare_codes\<rparr>"

definition sample_items :: "Dirent list" where
  "sample_items =
     [\<lparr>dname = ''y.js'', dtype = File\<rparr>, \<lparr>dname = ''B'', dtype = Directory\<rparr>,
      \<lparr>dname = ''.git'', dtype = Directory\<rparr>, \<lparr>dname = ''x.ts'', dtype = File\<rparr>,
      \<lparr>dname = ''A'', dtype = Directory\<rparr>, \<lparr>dname = ''notes.txt'', dtype = File\<rparr>,
      \<lparr>dname = ''.setup.ts'', dtype = File\<rparr>, \<lparr>dname = ''.ts'', dtype = File\<rparr>,
      \<lparr>dname = ''link'', dtype = Other\<rparr>]"

definition sample_fs :: filesystem where
  "sample_fs p =
     (if p = ''/tmp/proj'' then Some sample_items
      else if p = ''/tmp/proj/A'' then Some [\<lparr>dname = ''b.js'', dtype = File\<rparr>]
      else None)"

definition sample_sp :: spawner where
  "sample_sp req = \<lparr>status = Some 1, spawn_error = None\<rparr>"

definition sample_entries :: "Entry list" where
  "sample_entries =
     [\<lparr>name = ''A'', isDir = True\<rparr>, \<lparr>name = ''B'', isDir = True\<rparr>,
      \<lparr>name = ''.setup.ts'', isDir = False\<rparr>, \<lparr>name = ''x.ts'', isDir = False\<rparr>,
      \<lparr>name = ''y.js'', isDir = False\<rparr>]"

definition sample_st :: state where
  "sample_st =
     \<lparr>currentDir = ''/tmp/proj'', selected = Num 0, waitingForKey = False,
      entries = sample_entries, out = []\<rparr>"

definition sample_sub :: "Entry list" where
  "sample_sub = [\<lparr>name = ''..'', isDir = True\<rparr>, \<lparr>name = ''b.js'', isDir = False\<rparr>]"

definition sample_waiting :: state where
  "sample_waiting =
     \<lparr>currentDir = ''/tmp/proj'', selected = Num 7, waitingForKey = True,
      entries = [], out = []\<rparr>"

text \<open>A file system where no directory can be read, and one with nothing to list.\<close>

definition unreadable_fs :: filesystem where
  "unreadable_fs p = None"

definition bare_fs :: filesystem where
  "bare_fs p = (if p = ''/tmp/proj'' then Some [\<lparr>dname = ''.git'', dtype = Directory\<rparr>,
      \<lparr>dname = ''notes.txt'', dtype = File\<rparr>] else None)"

text \<open>Answers of \<open>spawnSync\<close>: a child that exits with a given status, and a failed start.\<close>

definition sp_status :: "int \<Rightarrow> spawner" where
  "sp_status n req = \<lparr>status = Some n, spawn_error = None\<rparr>"

definition sp_enoent :: spawner where
  "sp_enoent req = \<lparr>status = None, spawn_error = Some ''spawn npx ENOENT''\<rparr>"

definition sample_file_st :: state where
  "sample_file_st =
     \<lparr>currentDir = ''/tmp/proj'', selected = Num 3, waitingForKey = False,
      entries = sample_entries, out = []\<rparr>"

text \<open>
  A comparator that \<open>sort\<close> can rely on: it compares every two elements and is transitive.
\<close>

definition consistent_comparator :: "('a \<Rightarrow> 'a \<Rightarrow> int) \<Rightarrow> bool" where
  "consistent_comparator cmp =
     ((\<forall>a b. cmp a b \<le> 0 \<or> cmp b a \<le> 0) \<and>
      (\<forall>a b c. cmp a b \<le> 0 \<and> cmp b c \<le> 0 \<longrightarrow> cmp a c \<le> 0))"

text \<open>The parent entry of a listing: present when the directory is not the root.\<close>

definition parent_entry :: "config \<Rightarrow> string \<Rightarrow> Entry list" where
  "parent_entry cfg dir =
     (if resolve (cwd cfg) dir \<noteq> resolve (cwd cfg) (ROOT_DIR cfg)
      then [\<lparr>name = ''..'', isDir = True\<rparr>] else [])"


text \<open>A directory that holds the directories B and A and the files y.js and x.ts.\<close>

definition pair_items :: "Dirent list" where
  "pair_items =
     [\<lparr>dname = ''B'', dtype = Directory\<rparr>, \<lparr>dname = ''A'', dtype = Directory\<rparr>,
      \<lparr>dname = ''y.js'', dtype = File\<rparr>, \<lparr>dname = ''x.ts'', dtype = File\<rparr>]"

definition pair_fs :: filesystem where
  "pair_fs p = Some pair_items"

text \<open>
  What holds of the current directory and the entries in every state the script reaches:
  the directory is the root followed by further segments, every entry but the parent
  entry has a plain name, every file entry has a recognized extension, and the parent
  entry is there exactly below the root.
\<close>

definition nav_inv :: "config \<Rightarrow> string \<Rightarrow> Entry list \<Rightarrow> bool" where
  "nav_inv cfg dir es =
     (\<exists>rs ss. (\<forall>s\<in>set (rs @ ss). clean_seg s) \<and> ROOT_DIR cfg = abs_path rs \<and>
        dir = abs_path (rs @ ss) \<and>
        (\<forall>e\<in>set es. e = \<lparr>name = ''..'', isDir = True\<rparr> \<or> clean_seg (name e)) \<and>
        (\<forall>e\<in>set es. \<not> isDir e \<longrightarrow> extname (name e) \<in> set EXTENSIONS) \<and>
        (\<lparr>name = ''..'', isDir = True\<rparr> \<in> set es \<longleftrightarrow> ss \<noteq> []))"

text \<open>The sample configuration on Windows.\<close>

definition sample_win_cfg :: config where
  "sample_win_cfg = sample_cfg\<lparr>platform := ''win32''\<rparr>"

section \<open>Basic facts\<close>

lemma js_rem_nonneg: "0 \<le> a \<Longrightarrow> 0 < b \<Longrightarrow> js_rem (Num a) b = Num (a mod b)"
  by (cases "a = 0") (simp_all add: abs_of_pos)

lemma selected_render [simp]: "selected (render st) = selected st"
  and entries_render [simp]: "entries (render st) = entries st"
  and currentDir_render [simp]: "currentDir (render st) = currentDir st"
  and waitingForKey_render [simp]: "waitingForKey (render st) = waitingForKey st"
  by (simp_all add: render_def)

section \<open>Cursor movement\<close>

lemma keypress_up:
  "\<not> waitingForKey st \<Longrightarrow>
   keypress cfg fs sp (Some \<lparr>key_name = Some ''up'', ctrl = c\<rparr>) st =
     Inr (Running (render (st\<lparr>selected :=
       js_rem (js_add (js_add (selected st) (- 1)) (int (length (entries st))))
         (int (length (entries st)))\<rparr>)))"
  by (simp add: keypress_def)

lemma keypress_down:
  "\<not> waitingForKey st \<Longrightarrow>
   keypress cfg fs sp (Some \<lparr>key_name = Some ''down'', ctrl = c\<rparr>) st =
     Inr (Running (render (st\<lparr>selected :=
       js_rem (js_add (selected st) 1) (int (length (entries st)))\<rparr>)))"
  by (simp add: keypress_def)

text \<open>
  Claim C4.  In browsing mode, with \<open>N \<ge> 1\<close> entries and a valid index \<open>i\<close> selected, the
  up key selects \<open>(i - 1 + N) mod N\<close> and the down key selects \<open>(i + 1) mod N\<close>; up from
  index 0 gives \<open>N - 1\<close> and down from \<open>N - 1\<close> gives 0.  Neither key is blocked at an end.
\<close>

theorem up_down_wraparound:
  assumes browsing: "\<not> waitingForKey st"
    and sel: "selected st = Num i" and lo: "0 \<le> i" and hi: "i < N"
    and N: "N = int (length (entries st))"
  shows "moves_to cfg fs sp ''up'' c st ((i - 1 + N) mod N) \<and>
         moves_to cfg fs sp ''down'' c st ((i + 1) mod N) \<and>
         (i = 0 \<longrightarrow> moves_to cfg fs sp ''up'' c st (N - 1)) \<and>
         (i = N - 1 \<longrightarrow> moves_to cfg fs sp ''down'' c st 0)"
proof -
  have pos: "0 < N" using lo hi by simp
  have "js_rem (Num (i - 1 + N)) N = Num ((i - 1 + N) mod N)"
    using lo pos by (intro js_rem_nonneg) simp_all
  then have up: "js_rem (js_add (js_add (selected st) (- 1)) N) N = Num ((i - 1 + N) mod N)"
    using sel by simp
  have "js_rem (Num (i + 1)) N = Num ((i + 1) mod N)"
    using lo pos by (intro js_rem_nonneg) simp_all
  then have down: "js_rem (js_add (selected st) 1) N = Num ((i + 1) mod N)"
    using sel by simp
  have 1: "moves_to cfg fs sp ''up'' c st ((i - 1 + N) mod N)"
    unfolding moves_to_def using browsing up N by (simp add: keypress_up)
  have 2: "moves_to cfg fs sp ''down'' c st ((i + 1) mod N)"
    unfolding moves_to_def using browsing down N by (simp add: keypress_down)
  have 3: "i = 0 \<Longrightarrow> (i - 1 + N) mod N = N - 1" using pos by (simp add: zmod_minus1)
  have 4: "i = N - 1 \<Longrightarrow> (i + 1) mod N = 0" by simp
  show ?thesis using 1 2 3 4 by metis
qed

theorem up_down_wraparound_witness:
  "moves_to sample_cfg sample_fs sample_sp ''up'' False sample_st 4 \<and>
   moves_to sample_cfg sample_fs sample_sp ''down'' False sample_st 1"
proof -
  have a: "\<not> waitingForKey sample_st" by (simp add: sample_st_def)
  have b: "selected sample_st = Num 0" by (simp add: sample_st_def)
  have c: "(5::int) = int (length (entries sample_st))"
    by (simp add: sample_st_def sample_entries_def)
  from up_down_wraparound [OF a b _ _ c, of sample_cfg sample_fs sample_sp False]
  show ?thesis by simp
qed

section \<open>The branches of the key handler\<close>

lemma keypress_ack:
  "waitingForKey st \<Longrightarrow>
   keypress cfg fs sp (Some ky) st =
     (case getEntries cfg fs (currentDir st) of
        Inl e \<Rightarrow> Inl e
      | Inr es \<Rightarrow>
          Inr (Running (render (st\<lparr>waitingForKey := False, entries := es,
                 selected := (if js_ge (selected st) (int (length es))
                              then Num (int (length es) - 1) else selected st)\<rparr>))))"
  by (simp add: keypress_def)

lemma keypress_quit:
  "\<not> waitingForKey st \<Longrightarrow> key_name ky = Some ''q'' \<or> (ctrl ky \<and> key_name ky = Some ''c'') \<Longrightarrow>
   keypress cfg fs sp (Some ky) st = Inr (Exited 0 (st\<lparr>out := out st @ [ClearScreen]\<rparr>))"
  by (simp add: keypress_def)

lemma keypress_reload:
  "\<not> waitingForKey st \<Longrightarrow> key_name ky = Some ''r'' \<Longrightarrow>
   keypress cfg fs sp (Some ky) st =
     (case getEntries cfg fs (currentDir st) of
        Inl e \<Rightarrow> Inl e
      | Inr es \<Rightarrow> Inr (Running (render (st\<lparr>entries := es, selected := Num 0\<rparr>))))"
  by (simp add: keypress_def)

lemma keypress_return:
  "\<not> waitingForKey st \<Longrightarrow> key_name ky = Some ''return'' \<Longrightarrow>
   keypress cfg fs sp (Some ky) st =
     (case js_index (entries st) (selected st) of
        None \<Rightarrow> Inr (Running st)
      | Some cur \<Rightarrow>
          if isDir cur then
            (case getEntries cfg fs (if name cur = ''..'' then dirname (currentDir st)
                                      else join (currentDir st) (name cur)) of
               Inl e \<Rightarrow> Inl e
             | Inr es \<Rightarrow>
                 Inr (Running (render (st\<lparr>currentDir :=
                        (if name cur = ''..'' then dirname (currentDir st)
                         else join (currentDir st) (name cur)),
                        selected := Num 0, entries := es\<rparr>))))
          else Inr (Running ((runFile cfg sp (name cur) st)\<lparr>waitingForKey := True\<rparr>)))"
  by (simp add: keypress_def Let_def split: option.splits)

lemma keypress_exited:
  assumes "keypress cfg fs sp k st = Inr (Exited c st')"
  shows "\<not> waitingForKey st \<and> c = 0 \<and>
         (\<exists>ky. k = Some ky \<and> (key_name ky = Some ''q'' \<or> (ctrl ky \<and> key_name ky = Some ''c'')))"
  using assms
  by (auto simp: keypress_def Let_def split: option.splits sum.splits if_splits)

lemma clamp_min: "(if js_ge (Num i) n then Num (n - 1) else Num i) = Num (min i (n - 1))"
  by (simp add: min_def)


section \<open>The sample run, evaluated\<close>

lemma sample_root: "ROOT_DIR sample_cfg = ''/tmp/proj''"
  by (simp add: ROOT_DIR_def sample_cfg_def resolve_def isAbsolute_def)

lemma sample_resolve_root: "resolve (cwd sample_cfg) ''/tmp/proj'' = ''/tmp/proj''"
  by (simp add: sample_cfg_def resolve_def isAbsolute_def)

lemma ext1: "extname ''y.js'' = ''.js''" "extname ''x.ts'' = ''.ts''" "extname ''notes.txt'' = ''.txt''"
  "extname ''.setup.ts'' = ''.ts''" "extname ''.ts'' = []" "extname ''.js'' = []" "extname ''link'' = []"
  by code_simp+

lemma sample_dirs: "filter (\<lambda>d. isDirectory d \<and> \<not> startsWith (dname d) ''.'') sample_items
   = [\<lparr>dname = ''B'', dtype = Directory\<rparr>, \<lparr>dname = ''A'', dtype = Directory\<rparr>]"
  by (simp add: sample_items_def isDirectory_def startsWith_def)

lemma sample_files: "filter (\<lambda>d. isFile d \<and> extname (dname d) \<in> set EXTENSIONS) sample_items
   = [\<lparr>dname = ''y.js'', dtype = File\<rparr>, \<lparr>dname = ''x.ts'', dtype = File\<rparr>, \<lparr>dname = ''.setup.ts'', dtype = File\<rparr>]"
  by (simp add: sample_items_def isFile_def ext1 EXTENSIONS_def)

lemma sample_listing: "getEntries sample_cfg sample_fs ''/tmp/proj'' = Inr sample_entries"
proof -
  have fs: "sample_fs ''/tmp/proj'' = Some sample_items" by (simp add: sample_fs_def)
  have lc: "localeCompare sample_cfg = compare_codes" by (simp add: sample_cfg_def)
  show ?thesis
    unfolding getEntries_def fs sample_root sample_resolve_root lc
    by (simp add: sample_dirs sample_files sample_entries_def)
qed

lemma ext2: "extname ''b.js'' = ''.js''"
  by code_simp

lemma sample_join: "join ''/tmp/proj'' ''A'' = ''/tmp/proj/A''"
  by (simp add: join_def normalize_def)

lemma sample_resolve_sub: "resolve (cwd sample_cfg) ''/tmp/proj/A'' = ''/tmp/proj/A''"
  by (simp add: sample_cfg_def resolve_def isAbsolute_def)

lemma sample_listing_sub: "getEntries sample_cfg sample_fs ''/tmp/proj/A'' = Inr sample_sub"
proof -
  have fs: "sample_fs ''/tmp/proj/A'' = Some [\<lparr>dname = ''b.js'', dtype = File\<rparr>]"
    by (simp add: sample_fs_def)
  show ?thesis
    unfolding getEntries_def fs sample_root sample_resolve_root sample_resolve_sub
    by (simp add: isDirectory_def isFile_def ext2 EXTENSIONS_def sample_sub_def)
qed


section \<open>Selection after a reload and after a traversal\<close>

text \<open>
  Claim C5.  The reload key re-lists the current directory and selects index 0.  The
  key that acknowledges an execution re-lists it and clamps the index to
  \<open>min previous (count - 1)\<close>.  Entering a subdirectory or \<open>..\<close> selects index 0 in the
  listing of the new directory.  Each holds when the listing succeeds.
\<close>

theorem reload_resets_ack_clamps:
  "(\<not> waitingForKey st \<and> key_name ky = Some ''r'' \<and>
      getEntries cfg fs (currentDir st) = Inr es \<longrightarrow>
      (\<exists>st'. keypress cfg fs sp (Some ky) st = Inr (Running st') \<and> entries st' = es \<and>
         selected st' = Num 0 \<and> currentDir st' = currentDir st \<and> \<not> waitingForKey st')) \<and>
   (waitingForKey st \<and> selected st = Num i \<and>
      getEntries cfg fs (currentDir st) = Inr es \<longrightarrow>
      (\<exists>st'. keypress cfg fs sp (Some ky) st = Inr (Running st') \<and> entries st' = es \<and>
         selected st' = Num (min i (int (length es) - 1)) \<and> currentDir st' = currentDir st \<and>
         \<not> waitingForKey st')) \<and>
   (\<not> waitingForKey st \<and> key_name ky = Some ''return'' \<and>
      js_index (entries st) (selected st) = Some cur \<and> isDir cur \<and>
      dir' = (if name cur = ''..'' then dirname (currentDir st)
              else join (currentDir st) (name cur)) \<and>
      getEntries cfg fs dir' = Inr es \<longrightarrow>
      (\<exists>st'. keypress cfg fs sp (Some ky) st = Inr (Running st') \<and> entries st' = es \<and>
         selected st' = Num 0 \<and> currentDir st' = dir' \<and> \<not> waitingForKey st'))"
proof (intro conjI impI)
  assume "\<not> waitingForKey st \<and> key_name ky = Some ''r'' \<and>
      getEntries cfg fs (currentDir st) = Inr es"
  then show "\<exists>st'. keypress cfg fs sp (Some ky) st = Inr (Running st') \<and> entries st' = es \<and>
         selected st' = Num 0 \<and> currentDir st' = currentDir st \<and> \<not> waitingForKey st'"
    by (simp add: keypress_reload)
next
  assume "waitingForKey st \<and> selected st = Num i \<and>
      getEntries cfg fs (currentDir st) = Inr es"
  then show "\<exists>st'. keypress cfg fs sp (Some ky) st = Inr (Running st') \<and> entries st' = es \<and>
         selected st' = Num (min i (int (length es) - 1)) \<and> currentDir st' = currentDir st \<and>
         \<not> waitingForKey st'"
    by (auto simp: keypress_ack min_def)
next
  assume "\<not> waitingForKey st \<and> key_name ky = Some ''return'' \<and>
      js_index (entries st) (selected st) = Some cur \<and> isDir cur \<and>
      dir' = (if name cur = ''..'' then dirname (currentDir st)
              else join (currentDir st) (name cur)) \<and>
      getEntries cfg fs dir' = Inr es"
  then show "\<exists>st'. keypress cfg fs sp (Some ky) st = Inr (Running st') \<and> entries st' = es \<and>
         selected st' = Num 0 \<and> currentDir st' = dir' \<and> \<not> waitingForKey st'"
    by (auto simp: keypress_return)
qed

theorem reload_resets_ack_clamps_witness:
  "(\<exists>st'. keypress sample_cfg sample_fs sample_sp (Some \<lparr>key_name = Some ''r'', ctrl = False\<rparr>)
            (sample_st\<lparr>selected := Num 3\<rparr>) = Inr (Running st') \<and>
      entries st' = sample_entries \<and> selected st' = Num 0 \<and>
      currentDir st' = ''/tmp/proj'' \<and> \<not> waitingForKey st') \<and>
   (\<exists>st'. keypress sample_cfg sample_fs sample_sp (Some \<lparr>key_name = Some ''q'', ctrl = False\<rparr>)
            sample_waiting = Inr (Running st') \<and>
      entries st' = sample_entries \<and> selected st' = Num 4 \<and>
      currentDir st' = ''/tmp/proj'' \<and> \<not> waitingForKey st') \<and>
   (\<exists>st'. keypress sample_cfg sample_fs sample_sp (Some \<lparr>key_name = Some ''return'', ctrl = False\<rparr>)
            sample_st = Inr (Running st') \<and>
      entries st' = sample_sub \<and> selected st' = Num 0 \<and>
      currentDir st' = ''/tmp/proj/A'' \<and> \<not> waitingForKey st')"
proof -
  have len: "int (length sample_entries) = 5" by (simp add: sample_entries_def)
  have cur: "js_index (entries sample_st) (selected sample_st) = Some \<lparr>name = ''A'', isDir = True\<rparr>"
    by (simp add: sample_st_def sample_entries_def)
  have a: "\<not> waitingForKey (sample_st\<lparr>selected := Num 3\<rparr>) \<and>
      key_name \<lparr>key_name = Some ''r'', ctrl = False\<rparr> = Some ''r'' \<and>
      getEntries sample_cfg sample_fs (currentDir (sample_st\<lparr>selected := Num 3\<rparr>)) = Inr sample_entries"
    by (simp add: sample_st_def sample_listing)
  have b: "waitingForKey sample_waiting \<and> selected sample_waiting = Num 7 \<and>
      getEntries sample_cfg sample_fs (currentDir sample_waiting) = Inr sample_entries"
    by (simp add: sample_waiting_def sample_listing)
  have c: "\<not> waitingForKey sample_st \<and>
      key_name \<lparr>key_name = Some ''return'', ctrl = False\<rparr> = Some ''return'' \<and>
      js_index (entries sample_st) (selected sample_st) = Some \<lparr>name = ''A'', isDir = True\<rparr> \<and>
      isDir \<lparr>name = ''A'', isDir = True\<rparr> \<and>
      ''/tmp/proj/A'' = (if name \<lparr>name = ''A'', isDir = True\<rparr> = ''..'' then dirname (currentDir sample_st)
              else join (currentDir sample_st) (name \<lparr>name = ''A'', isDir = True\<rparr>)) \<and>
      getEntries sample_cfg sample_fs ''/tmp/proj/A'' = Inr sample_sub"
    using cur by (simp add: sample_st_def sample_join sample_listing_sub)
  have cd1: "currentDir (sample_st\<lparr>selected := Num 3\<rparr>) = ''/tmp/proj''"
    and cd2: "currentDir sample_waiting = ''/tmp/proj''"
    by (simp_all add: sample_st_def sample_waiting_def)
  from reload_resets_ack_clamps [where st = "sample_st\<lparr>selected := Num 3\<rparr>"
      and ky = "\<lparr>key_name = Some ''r'', ctrl = False\<rparr>" and cfg = sample_cfg
      and fs = sample_fs and es = sample_entries and sp = sample_sp] a
  have 1: "\<exists>st'. keypress sample_cfg sample_fs sample_sp (Some \<lparr>key_name = Some ''r'', ctrl = False\<rparr>)
            (sample_st\<lparr>selected := Num 3\<rparr>) = Inr (Running st') \<and>
      entries st' = sample_entries \<and> selected st' = Num 0 \<and>
      currentDir st' = ''/tmp/proj'' \<and> \<not> waitingForKey st'"
    unfolding cd1 by blast
  from reload_resets_ack_clamps [where st = sample_waiting
      and ky = "\<lparr>key_name = Some ''q'', ctrl = False\<rparr>" and cfg = sample_cfg
      and fs = sample_fs and es = sample_entries and sp = sample_sp and i = 7] b
  have 2: "\<exists>st'. keypress sample_cfg sample_fs sample_sp (Some \<lparr>key_name = Some ''q'', ctrl = False\<rparr>)
            sample_waiting = Inr (Running st') \<and>
      entries st' = sample_entries \<and> selected st' = Num 4 \<and>
      currentDir st' = ''/tmp/proj'' \<and> \<not> waitingForKey st'"
    unfolding cd2 len by simp
  from reload_resets_ack_clamps [where st = sample_st
      and ky = "\<lparr>key_name = Some ''return'', ctrl = False\<rparr>" and cfg = sample_cfg
      and fs = sample_fs and es = sample_sub and sp = sample_sp
      and cur = "\<lparr>name = ''A'', isDir = True\<rparr>" and dir' = "''/tmp/proj/A''"] c
  have 3: "\<exists>st'. keypress sample_cfg sample_fs sample_sp (Some \<lparr>key_name = Some ''return'', ctrl = False\<rparr>)
            sample_st = Inr (Running st') \<and>
      entries st' = sample_sub \<and> selected st' = Num 0 \<and>
      currentDir st' = ''/tmp/proj/A'' \<and> \<not> waitingForKey st'"
    by blast
  from 1 2 3 show ?thesis by blast
qed

section \<open>Listing failures and exit codes\<close>

lemma getEntries_None: "fs dir = None \<Longrightarrow> getEntries cfg fs dir = Inl (FilesystemError dir)"
  by (simp add: getEntries_def)

lemma getEntries_root_none_kept:
  assumes "fs (ROOT_DIR cfg) = Some items"
    and "\<forall>d\<in>set items. \<not> (isDirectory d \<and> \<not> startsWith (dname d) ''.'') \<and>
           \<not> (isFile d \<and> extname (dname d) \<in> set EXTENSIONS)"
  shows "getEntries cfg fs (ROOT_DIR cfg) = Inr []"
proof -
  have d: "filter (\<lambda>d. isDirectory d \<and> \<not> startsWith (dname d) ''.'') items = []"
    using assms(2) by (simp add: filter_empty_conv)
  have f: "filter (\<lambda>d. isFile d \<and> extname (dname d) \<in> set EXTENSIONS) items = []"
    using assms(2) by (simp add: filter_empty_conv)
  show ?thesis by (simp add: getEntries_def assms(1) d f)
qed

text \<open>
  Claim C8, as amended.  A directory that cannot be read makes the listing fail with a
  file system error, and nothing catches it: at startup, on the reload key, on the
  acknowledgment key and on entering a directory the error leaves the handler uncaught.
  At startup a root directory with nothing to list makes the program exit with code 0
  before the handler is installed, and \<open>q\<close> or ctrl+c in browsing mode exits with code 0.
\<close>

theorem listing_failure_uncaught:
  "(fs dir = None \<longrightarrow> getEntries cfg fs dir = Inl (FilesystemError dir)) \<and>
   (fs (ROOT_DIR cfg) = None \<longrightarrow> main cfg fs = Inl (FilesystemError (ROOT_DIR cfg))) \<and>
   (fs (currentDir st) = None \<and> (waitingForKey st \<or> key_name ky = Some ''r'') \<longrightarrow>
      keypress cfg fs sp (Some ky) st = Inl (FilesystemError (currentDir st))) \<and>
   (\<not> waitingForKey st \<and> key_name ky = Some ''return'' \<and>
      js_index (entries st) (selected st) = Some cur \<and> isDir cur \<and>
      dir' = (if name cur = ''..'' then dirname (currentDir st)
              else join (currentDir st) (name cur)) \<and> fs dir' = None \<longrightarrow>
      keypress cfg fs sp (Some ky) st = Inl (FilesystemError dir')) \<and>
   (fs (ROOT_DIR cfg) = Some items \<and>
      (\<forall>d\<in>set items. \<not> (isDirectory d \<and> \<not> startsWith (dname d) ''.'') \<and>
           \<not> (isFile d \<and> extname (dname d) \<in> set EXTENSIONS)) \<longrightarrow>
      (\<exists>st'. main cfg fs = Inr (Exited 0 st'))) \<and>
   (\<not> waitingForKey st \<and> (key_name ky = Some ''q'' \<or> (ctrl ky \<and> key_name ky = Some ''c'')) \<longrightarrow>
      (\<exists>st'. keypress cfg fs sp (Some ky) st = Inr (Exited 0 st')))"
proof (intro conjI impI)
  assume "fs dir = None"
  then show "getEntries cfg fs dir = Inl (FilesystemError dir)" by (rule getEntries_None)
next
  assume "fs (ROOT_DIR cfg) = None"
  then show "main cfg fs = Inl (FilesystemError (ROOT_DIR cfg))"
    by (simp add: main_def getEntries_None)
next
  assume a: "fs (currentDir st) = None \<and> (waitingForKey st \<or> key_name ky = Some ''r'')"
  show "keypress cfg fs sp (Some ky) st = Inl (FilesystemError (currentDir st))"
  proof (cases "waitingForKey st")
    case True
    then show ?thesis using a by (simp add: keypress_ack getEntries_None)
  next
    case False
    then show ?thesis using a by (simp add: keypress_reload getEntries_None)
  qed
next
  assume "\<not> waitingForKey st \<and> key_name ky = Some ''return'' \<and>
      js_index (entries st) (selected st) = Some cur \<and> isDir cur \<and>
      dir' = (if name cur = ''..'' then dirname (currentDir st)
              else join (currentDir st) (name cur)) \<and> fs dir' = None"
  then show "keypress cfg fs sp (Some ky) st = Inl (FilesystemError dir')"
    by (auto simp: keypress_return getEntries_None)
next
  assume "fs (ROOT_DIR cfg) = Some items \<and>
      (\<forall>d\<in>set items. \<not> (isDirectory d \<and> \<not> startsWith (dname d) ''.'') \<and>
           \<not> (isFile d \<and> extname (dname d) \<in> set EXTENSIONS))"
  then have "getEntries cfg fs (ROOT_DIR cfg) = Inr []"
    using getEntries_root_none_kept by blast
  then show "\<exists>st'. main cfg fs = Inr (Exited 0 st')"
    by (simp add: main_def)
next
  assume "\<not> waitingForKey st \<and> (key_name ky = Some ''q'' \<or> (ctrl ky \<and> key_name ky = Some ''c''))"
  then show "\<exists>st'. keypress cfg fs sp (Some ky) st = Inr (Exited 0 st')"
    using keypress_quit [of st ky cfg fs sp] by blast
qed

text \<open>
  Claim C8 as stated fails: with the current directory unreadable, the reload key ends the
  handler with the uncaught error, not with a state to go on from.
\<close>

theorem listing_failure_crashes_handler:
  "keypress sample_cfg unreadable_fs sample_sp (Some \<lparr>key_name = Some ''r'', ctrl = False\<rparr>) sample_st
     = Inl (FilesystemError ''/tmp/proj'') \<and>
   (\<forall>st'. keypress sample_cfg unreadable_fs sample_sp (Some \<lparr>key_name = Some ''r'', ctrl = False\<rparr>)
       sample_st \<noteq> Inr (Running st'))"
  by (simp add: keypress_reload sample_st_def getEntries_None unreadable_fs_def)

theorem listing_failure_uncaught_witness:
  "getEntries sample_cfg unreadable_fs ''/tmp/proj'' = Inl (FilesystemError ''/tmp/proj'') \<and>
   main sample_cfg unreadable_fs = Inl (FilesystemError ''/tmp/proj'') \<and>
   keypress sample_cfg unreadable_fs sample_sp (Some \<lparr>key_name = Some ''x'', ctrl = False\<rparr>)
     sample_waiting = Inl (FilesystemError ''/tmp/proj'') \<and>
   keypress sample_cfg unreadable_fs sample_sp (Some \<lparr>key_name = Some ''return'', ctrl = False\<rparr>)
     sample_st = Inl (FilesystemError ''/tmp/proj/A'') \<and>
   (\<exists>st'. main sample_cfg bare_fs = Inr (Exited 0 st')) \<and>
   (\<exists>st'. keypress sample_cfg sample_fs sample_sp (Some \<lparr>key_name = Some ''q'', ctrl = False\<rparr>)
      sample_st = Inr (Exited 0 st'))"
proof -
  note t = listing_failure_uncaught [where cfg = sample_cfg and sp = sample_sp]
  have cd: "currentDir sample_waiting = ''/tmp/proj''" "currentDir sample_st = ''/tmp/proj''"
    by (simp_all add: sample_waiting_def sample_st_def)
  have 1: "getEntries sample_cfg unreadable_fs ''/tmp/proj'' = Inl (FilesystemError ''/tmp/proj'')"
    using t [where fs = unreadable_fs and dir = "''/tmp/proj''"] by (simp add: unreadable_fs_def)
  have 2: "main sample_cfg unreadable_fs = Inl (FilesystemError ''/tmp/proj'')"
    using t [where fs = unreadable_fs] by (simp add: unreadable_fs_def sample_root)
  have w: "unreadable_fs (currentDir sample_waiting) = None \<and>
      (waitingForKey sample_waiting \<or> key_name \<lparr>key_name = Some ''x'', ctrl = False\<rparr> = Some ''r'')"
    by (simp add: unreadable_fs_def sample_waiting_def)
  have 3: "keypress sample_cfg unreadable_fs sample_sp (Some \<lparr>key_name = Some ''x'', ctrl = False\<rparr>)
     sample_waiting = Inl (FilesystemError ''/tmp/proj'')"
    using t [where fs = unreadable_fs and st = sample_waiting
        and ky = "\<lparr>key_name = Some ''x'', ctrl = False\<rparr>"] w
    unfolding cd by blast
  have r: "\<not> waitingForKey sample_st \<and>
      key_name \<lparr>key_name = Some ''return'', ctrl = False\<rparr> = Some ''return'' \<and>
      js_index (entries sample_st) (selected sample_st) = Some \<lparr>name = ''A'', isDir = True\<rparr> \<and>
      isDir \<lparr>name = ''A'', isDir = True\<rparr> \<and>
      ''/tmp/proj/A'' = (if name \<lparr>name = ''A'', isDir = True\<rparr> = ''..'' then dirname (currentDir sample_st)
              else join (currentDir sample_st) (name \<lparr>name = ''A'', isDir = True\<rparr>)) \<and>
      unreadable_fs ''/tmp/proj/A'' = None"
    by (simp add: sample_st_def sample_entries_def sample_join unreadable_fs_def)
  have 4: "keypress sample_cfg unreadable_fs sample_sp (Some \<lparr>key_name = Some ''return'', ctrl = False\<rparr>)
     sample_st = Inl (FilesystemError ''/tmp/proj/A'')"
    using t [where fs = unreadable_fs and st = sample_st
        and ky = "\<lparr>key_name = Some ''return'', ctrl = False\<rparr>"
        and cur = "\<lparr>name = ''A'', isDir = True\<rparr>" and dir' = "''/tmp/proj/A''"] r
    by blast
  have b: "bare_fs (ROOT_DIR sample_cfg) = Some [\<lparr>dname = ''.git'', dtype = Directory\<rparr>,
      \<lparr>dname = ''notes.txt'', dtype = File\<rparr>] \<and>
      (\<forall>d\<in>set [\<lparr>dname = ''.git'', dtype = Directory\<rparr>, \<lparr>dname = ''notes.txt'', dtype = File\<rparr>].
         \<not> (isDirectory d \<and> \<not> startsWith (dname d) ''.'') \<and>
           \<not> (isFile d \<and> extname (dname d) \<in> set EXTENSIONS))"
    by (simp add: bare_fs_def sample_root isDirectory_def isFile_def startsWith_def ext1
        EXTENSIONS_def)
  have 5: "\<exists>st'. main sample_cfg bare_fs = Inr (Exited 0 st')"
    using t [where fs = bare_fs
        and items = "[\<lparr>dname = ''.git'', dtype = Directory\<rparr>, \<lparr>dname = ''notes.txt'', dtype = File\<rparr>]"] b
    by blast
  have q: "\<not> waitingForKey sample_st \<and>
      (key_name \<lparr>key_name = Some ''q'', ctrl = False\<rparr> = Some ''q'' \<or>
       (ctrl \<lparr>key_name = Some ''q'', ctrl = False\<rparr> \<and>
        key_name \<lparr>key_name = Some ''q'', ctrl = False\<rparr> = Some ''c''))"
    by (simp add: sample_st_def)
  have 6: "\<exists>st'. keypress sample_cfg sample_fs sample_sp (Some \<lparr>key_name = Some ''q'', ctrl = False\<rparr>)
      sample_st = Inr (Exited 0 st')"
    using t [where fs = sample_fs and st = sample_st
        and ky = "\<lparr>key_name = Some ''q'', ctrl = False\<rparr>"] q by blast
  from 1 2 3 4 5 6 show ?thesis by blast
qed

section \<open>Running a file\<close>

lemma waitingForKey_runFile [simp]: "waitingForKey (runFile cfg sp file st) = waitingForKey st"
  and currentDir_runFile [simp]: "currentDir (runFile cfg sp file st) = currentDir st"
  and entries_runFile [simp]: "entries (runFile cfg sp file st) = entries st"
  and selected_runFile [simp]: "selected (runFile cfg sp file st) = selected st"
  by (simp_all add: runFile_def Let_def)

lemma runFile_status_ignored:
  assumes "spawn_error (sp1 (runFile_request cfg (currentDir st) file)) =
           spawn_error (sp2 (runFile_request cfg (currentDir st) file))"
  shows "runFile cfg sp1 file st = runFile cfg sp2 file st"
  using assms by (simp add: runFile_def Let_def)

lemma runFile_shows_error:
  assumes "spawn_error (sp (runFile_request cfg (currentDir st) file)) = Some m"
  shows "SpawnErrorMessage m \<in> set (out (runFile cfg sp file st))"
  using assms by (simp add: runFile_def Let_def)

lemma keypress_return_file:
  assumes "\<not> waitingForKey st" and "key_name ky = Some ''return''"
    and "js_index (entries st) (selected st) = Some cur" and "\<not> isDir cur"
  shows "keypress cfg fs sp (Some ky) st =
           Inr (Running ((runFile cfg sp (name cur) st)\<lparr>waitingForKey := True\<rparr>))"
  using assms by (simp add: keypress_return)

text \<open>
  Claim C7 as stated fails: the script never reads the exit status of the child.  A child
  that exits with status 1 leaves the same output and the same state as one that exits
  with status 0, so the status is not reported.
\<close>

theorem exit_status_not_reported:
  "runFile sample_cfg (sp_status 1) ''x.ts'' sample_file_st =
     runFile sample_cfg (sp_status 0) ''x.ts'' sample_file_st \<and>
   out (runFile sample_cfg (sp_status 1) ''x.ts'' sample_file_st) =
     [ClearScreen, RunBanner ''x.ts'', Separator, SetRawMode False, StdinPause,
      Spawn (runFile_request sample_cfg ''/tmp/proj'' ''x.ts''), StdinResume, SetRawMode True,
      Separator, AckPrompt]"
proof -
  have tty: "isTTY sample_cfg" by (simp add: sample_cfg_def)
  have cd: "currentDir sample_file_st = ''/tmp/proj''" and o: "out sample_file_st = []"
    by (simp_all add: sample_file_st_def)
  have e: "\<And>n req. spawn_error (sp_status n req) = None" by (simp add: sp_status_def)
  show ?thesis by (simp add: runFile_def Let_def tty cd o e)
qed

text \<open>
  Claim C7, as amended.  When the interpreter cannot be started, the message of the spawn
  error is written to the terminal and the handler goes on, waiting for the
  acknowledgment.  The exit status of the child is neither reported nor treated as an
  error: two answers of \<open>spawnSync\<close> that agree on the error leave the same output and
  state, whatever their status.  After any execution the next key, when the listing
  succeeds, returns to browsing with the fresh listing.
\<close>

theorem spawn_error_shown_status_ignored:
  assumes "\<not> waitingForKey st" and "key_name ky = Some ''return''"
    and "js_index (entries st) (selected st) = Some cur" and "\<not> isDir cur"
    and "req = runFile_request cfg (currentDir st) (name cur)"
  shows "\<exists>st'. keypress cfg fs sp (Some ky) st = Inr (Running st') \<and> waitingForKey st' \<and>
           currentDir st' = currentDir st \<and>
           (\<forall>m. spawn_error (sp req) = Some m \<longrightarrow> SpawnErrorMessage m \<in> set (out st')) \<and>
           (\<forall>sp2. spawn_error (sp2 req) = spawn_error (sp req) \<longrightarrow>
              keypress cfg fs sp2 (Some ky) st = Inr (Running st')) \<and>
           (\<forall>ky2 fs2 sp2 es. getEntries cfg fs2 (currentDir st) = Inr es \<longrightarrow>
              (\<exists>st2. keypress cfg fs2 sp2 (Some ky2) st' = Inr (Running st2) \<and>
                 \<not> waitingForKey st2 \<and> entries st2 = es \<and> currentDir st2 = currentDir st))"
proof -
  let ?st' = "(runFile cfg sp (name cur) st)\<lparr>waitingForKey := True\<rparr>"
  have k: "\<And>sp. keypress cfg fs sp (Some ky) st =
      Inr (Running ((runFile cfg sp (name cur) st)\<lparr>waitingForKey := True\<rparr>))"
    using assms(1-4) by (rule keypress_return_file)
  have 1: "\<forall>m. spawn_error (sp req) = Some m \<longrightarrow> SpawnErrorMessage m \<in> set (out ?st')"
    using runFile_shows_error [of sp cfg st "name cur"] assms(5) by simp
  have 2: "\<forall>sp2. spawn_error (sp2 req) = spawn_error (sp req) \<longrightarrow>
      keypress cfg fs sp2 (Some ky) st = Inr (Running ?st')"
  proof (intro allI impI)
    fix sp2 :: spawner
    assume "spawn_error (sp2 req) = spawn_error (sp req)"
    then have "runFile cfg sp2 (name cur) st = runFile cfg sp (name cur) st"
      unfolding assms(5) by (rule runFile_status_ignored)
    then show "keypress cfg fs sp2 (Some ky) st = Inr (Running ?st')"
      unfolding k by simp
  qed
  have 3: "\<forall>ky2 fs2 sp2 es. getEntries cfg fs2 (currentDir st) = Inr es \<longrightarrow>
      (\<exists>st2. keypress cfg fs2 sp2 (Some ky2) ?st' = Inr (Running st2) \<and>
         \<not> waitingForKey st2 \<and> entries st2 = es \<and> currentDir st2 = currentDir st)"
    by (simp add: keypress_ack)
  have 0: "keypress cfg fs sp (Some ky) st = Inr (Running ?st')" by (rule k)
  have w: "waitingForKey ?st'" and d: "currentDir ?st' = currentDir st" by simp_all
  from 0 w d 1 2 3 show ?thesis by blast
qed

theorem spawn_error_shown_status_ignored_witness:
  "\<exists>st'. keypress sample_cfg sample_fs sp_enoent (Some \<lparr>key_name = Some ''return'', ctrl = False\<rparr>)
       sample_file_st = Inr (Running st') \<and> waitingForKey st' \<and>
     SpawnErrorMessage ''spawn npx ENOENT'' \<in> set (out st') \<and>
     (\<exists>st2. keypress sample_cfg sample_fs sample_sp (Some \<lparr>key_name = Some ''q'', ctrl = False\<rparr>) st'
        = Inr (Running st2) \<and> \<not> waitingForKey st2 \<and> entries st2 = sample_entries)"
proof -
  have a: "\<not> waitingForKey sample_file_st"
    and c: "js_index (entries sample_file_st) (selected sample_file_st) =
              Some \<lparr>name = ''x.ts'', isDir = False\<rparr>"
    and cd: "currentDir sample_file_st = ''/tmp/proj''"
    by (simp_all add: sample_file_st_def sample_entries_def)
  from spawn_error_shown_status_ignored [where st = sample_file_st and cfg = sample_cfg
      and fs = sample_fs and sp = sp_enoent
      and ky = "\<lparr>key_name = Some ''return'', ctrl = False\<rparr>"
      and cur = "\<lparr>name = ''x.ts'', isDir = False\<rparr>", OF a _ c _ refl]
  obtain st' where s: "keypress sample_cfg sample_fs sp_enoent
        (Some \<lparr>key_name = Some ''return'', ctrl = False\<rparr>) sample_file_st = Inr (Running st')"
      "waitingForKey st'"
      "\<forall>m. spawn_error (sp_enoent (runFile_request sample_cfg (currentDir sample_file_st)
              (name \<lparr>name = ''x.ts'', isDir = False\<rparr>))) = Some m \<longrightarrow>
           SpawnErrorMessage m \<in> set (out st')"
      "\<forall>ky2 fs2 sp2 es. getEntries sample_cfg fs2 (currentDir sample_file_st) = Inr es \<longrightarrow>
              (\<exists>st2. keypress sample_cfg fs2 sp2 (Some ky2) st' = Inr (Running st2) \<and>
                 \<not> waitingForKey st2 \<and> entries st2 = es \<and>
                 currentDir st2 = currentDir sample_file_st)"
    by auto
  have e: "SpawnErrorMessage ''spawn npx ENOENT'' \<in> set (out st')"
    using s(3) by (simp add: sp_enoent_def)
  have n: "\<exists>st2. keypress sample_cfg sample_fs sample_sp (Some \<lparr>key_name = Some ''q'', ctrl = False\<rparr>) st'
        = Inr (Running st2) \<and> \<not> waitingForKey st2 \<and> entries st2 = sample_entries"
    using s(4) sample_listing unfolding cd by blast
  from s(1,2) e n show ?thesis by blast
qed

section \<open>Sorting\<close>

lemma mset_sort_insert: "mset (sort_insert cmp x ys) = add_mset x (mset ys)"
  by (induction ys) simp_all

lemma mset_array_sort: "mset (array_sort cmp xs) = mset xs"
  by (induction xs) (simp_all add: mset_sort_insert)

lemma set_array_sort: "set (array_sort cmp xs) = set xs"
  using mset_array_sort [of cmp xs] by (metis set_mset_mset)

lemma set_sort_insert: "set (sort_insert cmp x ys) = insert x (set ys)"
  using mset_sort_insert [of cmp x ys] by (metis set_mset_mset set_mset_add_mset_insert)

lemma sorted_sort_insert:
  assumes "consistent_comparator cmp" and "sorted_wrt (\<lambda>a b. cmp a b \<le> 0) ys"
  shows "sorted_wrt (\<lambda>a b. cmp a b \<le> 0) (sort_insert cmp x ys)"
  using assms(2)
proof (induction ys)
  case Nil
  then show ?case by simp
next
  case (Cons y ys)
  have total: "\<And>a b. cmp a b \<le> 0 \<or> cmp b a \<le> 0"
    and trans: "\<And>a b c. cmp a b \<le> 0 \<Longrightarrow> cmp b c \<le> 0 \<Longrightarrow> cmp a c \<le> 0"
    using assms(1) unfolding consistent_comparator_def by blast+
  show ?case
  proof (cases "cmp x y \<le> 0")
    case True
    then have "\<forall>z\<in>set ys. cmp x z \<le> 0" using Cons.prems trans by auto
    then show ?thesis using True Cons.prems by simp
  next
    case False
    then have yx: "cmp y x \<le> 0" using total by blast
    have "sorted_wrt (\<lambda>a b. cmp a b \<le> 0) (sort_insert cmp x ys)"
      using Cons by simp
    then show ?thesis using False yx Cons.prems by (simp add: set_sort_insert)
  qed
qed

lemma sorted_array_sort:
  "consistent_comparator cmp \<Longrightarrow> sorted_wrt (\<lambda>a b. cmp a b \<le> 0) (array_sort cmp xs)"
  by (induction xs) (simp_all add: sorted_sort_insert)

lemma array_sort_map:
  "array_sort (\<lambda>a b. cmp (f a) (f b)) (map g xs) = map g (array_sort (\<lambda>a b. cmp (f (g a)) (f (g b))) xs)"
proof -
  have ins: "\<And>x ys. sort_insert (\<lambda>a b. cmp (f a) (f b)) (g x) (map g ys) =
      map g (sort_insert (\<lambda>a b. cmp (f (g a)) (f (g b))) x ys)"
  proof -
    fix x ys
    show "sort_insert (\<lambda>a b. cmp (f a) (f b)) (g x) (map g ys) =
      map g (sort_insert (\<lambda>a b. cmp (f (g a)) (f (g b))) x ys)"
      by (induction ys) simp_all
  qed
  show ?thesis by (induction xs) (simp_all add: ins)
qed

lemma getEntries_Some:
  assumes "fs dir = Some items"
  shows "getEntries cfg fs dir =
     Inr (parent_entry cfg dir @
          array_sort (\<lambda>a b. localeCompare cfg (name a) (name b))
            (map (\<lambda>d. \<lparr>name = dname d, isDir = True\<rparr>)
               (filter (\<lambda>d. isDirectory d \<and> \<not> startsWith (dname d) ''.'') items)) @
          array_sort (\<lambda>a b. localeCompare cfg (name a) (name b))
            (map (\<lambda>d. \<lparr>name = dname d, isDir = False\<rparr>)
               (filter (\<lambda>d. isFile d \<and> extname (dname d) \<in> set EXTENSIONS) items)))"
  by (simp add: getEntries_def assms parent_entry_def Let_def)

lemma sorted_names:
  assumes "consistent_comparator cmp"
  shows "\<exists>ns. array_sort (\<lambda>a b. cmp (name a) (name b)) (map (\<lambda>d. \<lparr>name = dname d, isDir = b\<rparr>) ds)
           = map (\<lambda>n. \<lparr>name = n, isDir = b\<rparr>) ns \<and>
         sorted_wrt (\<lambda>a b. cmp a b \<le> 0) ns \<and> mset ns = mset (map dname ds)"
proof -
  have "array_sort (\<lambda>a b. cmp (name a) (name b)) (map (\<lambda>d. \<lparr>name = dname d, isDir = b\<rparr>) ds)
      = map (\<lambda>n. \<lparr>name = n, isDir = b\<rparr>) (array_sort cmp (map dname ds))"
    using array_sort_map [of cmp name "\<lambda>n. \<lparr>name = n, isDir = b\<rparr>" "map dname ds"]
    by (simp add: comp_def)
  then show ?thesis
    using sorted_array_sort [OF assms] mset_array_sort by blast
qed

section \<open>The listing\<close>

lemma mset_two: "mset xs = {#a, b#} \<Longrightarrow> xs = [a, b] \<or> xs = [b, a]"
proof -
  assume m: "mset xs = {#a, b#}"
  then have "length xs = 2" using mset_eq_length [of xs "[a, b]"] by simp
  then obtain x y where xs: "xs = [x, y]"
    by (metis (no_types) length_0_conv length_Suc_conv numeral_2_eq_2)
  with m show ?thesis by (auto simp: add_eq_conv_ex)
qed

lemma compare_codes_total: "compare_codes a b \<le> 0 \<or> compare_codes b a \<le> 0"
  by (induction a b rule: compare_codes.induct) auto

lemma compare_codes_trans:
  "compare_codes a b \<le> 0 \<Longrightarrow> compare_codes b c \<le> 0 \<Longrightarrow> compare_codes a c \<le> 0"
proof (induction a b arbitrary: c rule: compare_codes.induct)
  case 1
  then show ?case by simp
next
  case (2 b bs)
  then show ?case by (cases c) simp_all
next
  case (3 a as)
  then show ?case by simp
next
  case (4 a as b bs)
  show ?case
  proof (cases c)
    case Nil
    then show ?thesis using "4.prems"(2) by simp
  next
    case (Cons d ds)
    have ab: "\<not> (of_char b :: nat) < of_char a"
      using "4.prems"(1) by (simp split: if_splits)
    have bd: "\<not> (of_char d :: nat) < of_char b"
      using "4.prems"(2) Cons by (simp split: if_splits)
    show ?thesis
    proof (cases "(of_char a :: nat) < of_char d")
      case True
      then show ?thesis using Cons by simp
    next
      case False
      have "(of_char a :: nat) = of_char b" using False ab bd by linarith
      moreover have "(of_char b :: nat) = of_char d" using False ab bd by linarith
      ultimately have eq: "a = b" "b = d" by simp_all
      have 1: "compare_codes as bs \<le> 0" using "4.prems"(1) eq by simp
      have 2: "compare_codes bs ds \<le> 0" using "4.prems"(2) Cons eq by simp
      have "compare_codes as ds \<le> 0"
        using "4.IH" [of ds] eq 1 2 by simp
      then show ?thesis using Cons eq by simp
    qed
  qed
qed

lemma consistent_compare_codes: "consistent_comparator compare_codes"
  unfolding consistent_comparator_def using compare_codes_total compare_codes_trans by blast

lemma ext3: "extname ''A'' = []" "extname ''B'' = []"
  by code_simp+

text \<open>
  Claim C2.  With a comparator that is a total preorder on names, the listing of a
  readable directory is the parent entry \<open>..\<close> (present exactly when the resolved directory
  differs from the resolved root), then the kept subdirectories in the comparator's order,
  then the kept files in the comparator's order.  A directory that holds the directories
  B and A and the files y.js and x.ts, in any order, is listed as A, B, x.ts, y.js when the
  comparator puts A before B and x.ts before y.js.
\<close>

theorem listing_order:
  assumes cons: "consistent_comparator (localeCompare cfg)" and items: "fs dir = Some items"
  shows "\<exists>ds fls.
     getEntries cfg fs dir =
       Inr ((if resolve (cwd cfg) dir \<noteq> resolve (cwd cfg) (ROOT_DIR cfg)
             then [\<lparr>name = ''..'', isDir = True\<rparr>] else []) @
            map (\<lambda>n. \<lparr>name = n, isDir = True\<rparr>) ds @
            map (\<lambda>n. \<lparr>name = n, isDir = False\<rparr>) fls) \<and>
     sorted_wrt (\<lambda>a b. localeCompare cfg a b \<le> 0) ds \<and>
     mset ds = mset (map dname (filter (\<lambda>d. isDirectory d \<and> \<not> startsWith (dname d) ''.'') items)) \<and>
     sorted_wrt (\<lambda>a b. localeCompare cfg a b \<le> 0) fls \<and>
     mset fls = mset (map dname (filter (\<lambda>d. isFile d \<and> extname (dname d) \<in> set EXTENSIONS) items)) \<and>
     (mset items = mset pair_items \<and>
      localeCompare cfg ''A'' ''B'' < 0 \<and> 0 < localeCompare cfg ''B'' ''A'' \<and>
      localeCompare cfg ''x.ts'' ''y.js'' < 0 \<and> 0 < localeCompare cfg ''y.js'' ''x.ts'' \<longrightarrow>
      ds = [''A'', ''B''] \<and> fls = [''x.ts'', ''y.js''])"
proof -
  let ?le = "\<lambda>a b. localeCompare cfg a b \<le> 0"
  let ?D = "filter (\<lambda>d. isDirectory d \<and> \<not> startsWith (dname d) ''.'') items"
  let ?F = "filter (\<lambda>d. isFile d \<and> extname (dname d) \<in> set EXTENSIONS) items"
  obtain ds where ds: "array_sort (\<lambda>a b. localeCompare cfg (name a) (name b))
        (map (\<lambda>d. \<lparr>name = dname d, isDir = True\<rparr>) ?D) = map (\<lambda>n. \<lparr>name = n, isDir = True\<rparr>) ds"
      "sorted_wrt ?le ds" "mset ds = mset (map dname ?D)"
    using sorted_names [OF cons, of True ?D] by blast
  obtain fls where fls: "array_sort (\<lambda>a b. localeCompare cfg (name a) (name b))
        (map (\<lambda>d. \<lparr>name = dname d, isDir = False\<rparr>) ?F) = map (\<lambda>n. \<lparr>name = n, isDir = False\<rparr>) fls"
      "sorted_wrt ?le fls" "mset fls = mset (map dname ?F)"
    using sorted_names [OF cons, of False ?F] by blast
  have eq: "getEntries cfg fs dir =
       Inr ((if resolve (cwd cfg) dir \<noteq> resolve (cwd cfg) (ROOT_DIR cfg)
             then [\<lparr>name = ''..'', isDir = True\<rparr>] else []) @
            map (\<lambda>n. \<lparr>name = n, isDir = True\<rparr>) ds @
            map (\<lambda>n. \<lparr>name = n, isDir = False\<rparr>) fls)"
    unfolding getEntries_Some [of fs dir items cfg, OF items] ds(1) fls(1) parent_entry_def by (rule refl)
  have ex: "ds = [''A'', ''B''] \<and> fls = [''x.ts'', ''y.js'']"
    if m: "mset items = mset pair_items"
      and ab: "localeCompare cfg ''A'' ''B'' < 0" "0 < localeCompare cfg ''B'' ''A''"
      and xy: "localeCompare cfg ''x.ts'' ''y.js'' < 0" "0 < localeCompare cfg ''y.js'' ''x.ts''"
  proof -
    have "mset (map dname ?D) =
        image_mset dname (filter_mset (\<lambda>d. isDirectory d \<and> \<not> startsWith (dname d) ''.'') (mset items))"
      by simp
    also have "\<dots> =
        image_mset dname (filter_mset (\<lambda>d. isDirectory d \<and> \<not> startsWith (dname d) ''.'') (mset pair_items))"
      by (simp only: m)
    also have "\<dots> = {#''B'', ''A''#}"
      by (simp add: pair_items_def isDirectory_def startsWith_def)
    finally have "ds = [''B'', ''A''] \<or> ds = [''A'', ''B'']"
      using ds(3) mset_two by metis
    then have d: "ds = [''A'', ''B'']" using ds(2) ab by auto
    have "mset (map dname ?F) =
        image_mset dname (filter_mset (\<lambda>d. isFile d \<and> extname (dname d) \<in> set EXTENSIONS) (mset items))"
      by simp
    also have "\<dots> =
        image_mset dname (filter_mset (\<lambda>d. isFile d \<and> extname (dname d) \<in> set EXTENSIONS) (mset pair_items))"
      by (simp only: m)
    also have "\<dots> = {#''y.js'', ''x.ts''#}"
      by (simp add: pair_items_def isFile_def ext1 ext3 EXTENSIONS_def)
    finally have "fls = [''y.js'', ''x.ts''] \<or> fls = [''x.ts'', ''y.js'']"
      using fls(3) mset_two by metis
    then have f: "fls = [''x.ts'', ''y.js'']" using fls(2) xy by auto
    from d f show ?thesis by simp
  qed
  from eq ds(2,3) fls(2,3) ex show ?thesis by blast
qed

theorem listing_order_witness:
  "getEntries sample_cfg pair_fs ''/tmp/proj'' =
     Inr [\<lparr>name = ''A'', isDir = True\<rparr>, \<lparr>name = ''B'', isDir = True\<rparr>,
          \<lparr>name = ''x.ts'', isDir = False\<rparr>, \<lparr>name = ''y.js'', isDir = False\<rparr>] \<and>
   getEntries sample_cfg pair_fs ''/tmp/proj/A'' =
     Inr [\<lparr>name = ''..'', isDir = True\<rparr>,
          \<lparr>name = ''A'', isDir = True\<rparr>, \<lparr>name = ''B'', isDir = True\<rparr>,
          \<lparr>name = ''x.ts'', isDir = False\<rparr>, \<lparr>name = ''y.js'', isDir = False\<rparr>]"
proof -
  have lc: "localeCompare sample_cfg = compare_codes" by (simp add: sample_cfg_def)
  have cons: "consistent_comparator (localeCompare sample_cfg)"
    unfolding lc by (rule consistent_compare_codes)
  have cmp: "localeCompare sample_cfg ''A'' ''B'' < 0" "0 < localeCompare sample_cfg ''B'' ''A''"
    "localeCompare sample_cfg ''x.ts'' ''y.js'' < 0" "0 < localeCompare sample_cfg ''y.js'' ''x.ts''"
    unfolding lc by simp_all
  have it: "pair_fs ''/tmp/proj'' = Some pair_items" "pair_fs ''/tmp/proj/A'' = Some pair_items"
    by (simp_all add: pair_fs_def)
  from listing_order [where cfg = sample_cfg and fs = pair_fs and dir = "''/tmp/proj''"
      and items = pair_items, OF cons it(1)] cmp
  obtain ds fls where g: "getEntries sample_cfg pair_fs ''/tmp/proj'' =
       Inr ((if resolve (cwd sample_cfg) ''/tmp/proj'' \<noteq> resolve (cwd sample_cfg) (ROOT_DIR sample_cfg)
             then [\<lparr>name = ''..'', isDir = True\<rparr>] else []) @
            map (\<lambda>n. \<lparr>name = n, isDir = True\<rparr>) ds @
            map (\<lambda>n. \<lparr>name = n, isDir = False\<rparr>) fls)"
      and "ds = [''A'', ''B'']" "fls = [''x.ts'', ''y.js'']"
    by blast
  then have 1: "getEntries sample_cfg pair_fs ''/tmp/proj'' =
     Inr [\<lparr>name = ''A'', isDir = True\<rparr>, \<lparr>name = ''B'', isDir = True\<rparr>,
          \<lparr>name = ''x.ts'', isDir = False\<rparr>, \<lparr>name = ''y.js'', isDir = False\<rparr>]"
    unfolding sample_root sample_resolve_root by simp
  from listing_order [where cfg = sample_cfg and fs = pair_fs and dir = "''/tmp/proj/A''"
      and items = pair_items, OF cons it(2)] cmp
  obtain ds' fls' where g': "getEntries sample_cfg pair_fs ''/tmp/proj/A'' =
       Inr ((if resolve (cwd sample_cfg) ''/tmp/proj/A'' \<noteq> resolve (cwd sample_cfg) (ROOT_DIR sample_cfg)
             then [\<lparr>name = ''..'', isDir = True\<rparr>] else []) @
            map (\<lambda>n. \<lparr>name = n, isDir = True\<rparr>) ds' @
            map (\<lambda>n. \<lparr>name = n, isDir = False\<rparr>) fls')"
      and "ds' = [''A'', ''B'']" "fls' = [''x.ts'', ''y.js'']"
    by blast
  then have 2: "getEntries sample_cfg pair_fs ''/tmp/proj/A'' =
     Inr [\<lparr>name = ''..'', isDir = True\<rparr>,
          \<lparr>name = ''A'', isDir = True\<rparr>, \<lparr>name = ''B'', isDir = True\<rparr>,
          \<lparr>name = ''x.ts'', isDir = False\<rparr>, \<lparr>name = ''y.js'', isDir = False\<rparr>]"
    unfolding sample_root sample_resolve_root sample_resolve_sub by simp
  from 1 2 show ?thesis by simp
qed

lemma getEntries_rest:
  assumes "fs dir = Some items"
  shows "\<exists>rest. getEntries cfg fs dir =
           Inr ((if resolve (cwd cfg) dir \<noteq> resolve (cwd cfg) (ROOT_DIR cfg)
                 then [\<lparr>name = ''..'', isDir = True\<rparr>] else []) @ rest) \<and>
         set rest =
           (\<lambda>d. \<lparr>name = dname d, isDir = True\<rparr>) `
              {d \<in> set items. isDirectory d \<and> \<not> startsWith (dname d) ''.''} \<union>
           (\<lambda>d. \<lparr>name = dname d, isDir = False\<rparr>) `
              {d \<in> set items. isFile d \<and> extname (dname d) \<in> set EXTENSIONS}"
  unfolding getEntries_Some [of fs dir items cfg, OF assms] parent_entry_def
  by (intro exI conjI, rule refl) (simp add: set_array_sort)

text \<open>
  Claim C3.  In the listing of a directory, every entry after the optional parent entry
  comes from a child: a directory entry has a name that does not start with \<open>.\<close>, and a
  file entry has the extension \<open>.ts\<close> or \<open>.js\<close>.  So a child directory whose name starts
  with \<open>.\<close> is not listed, and a child file with another extension is not listed.
\<close>

theorem hidden_dirs_and_other_files_excluded:
  assumes "fs dir = Some items"
  shows "\<exists>rest. getEntries cfg fs dir =
           Inr ((if resolve (cwd cfg) dir \<noteq> resolve (cwd cfg) (ROOT_DIR cfg)
                 then [\<lparr>name = ''..'', isDir = True\<rparr>] else []) @ rest) \<and>
         (\<forall>e\<in>set rest. (isDir e \<longrightarrow> \<not> startsWith (name e) ''.'') \<and>
                        (\<not> isDir e \<longrightarrow> extname (name e) = ''.ts'' \<or> extname (name e) = ''.js'')) \<and>
         (\<forall>d\<in>set items. isDirectory d \<and> startsWith (dname d) ''.'' \<longrightarrow>
              \<lparr>name = dname d, isDir = True\<rparr> \<notin> set rest) \<and>
         (\<forall>d\<in>set items. isFile d \<and> extname (dname d) \<noteq> ''.ts'' \<and> extname (dname d) \<noteq> ''.js'' \<longrightarrow>
              \<lparr>name = dname d, isDir = False\<rparr> \<notin> set rest)"
proof -
  obtain rest where r: "getEntries cfg fs dir =
           Inr ((if resolve (cwd cfg) dir \<noteq> resolve (cwd cfg) (ROOT_DIR cfg)
                 then [\<lparr>name = ''..'', isDir = True\<rparr>] else []) @ rest)"
    and s: "set rest =
           (\<lambda>d. \<lparr>name = dname d, isDir = True\<rparr>) `
              {d \<in> set items. isDirectory d \<and> \<not> startsWith (dname d) ''.''} \<union>
           (\<lambda>d. \<lparr>name = dname d, isDir = False\<rparr>) `
              {d \<in> set items. isFile d \<and> extname (dname d) \<in> set EXTENSIONS}"
    using getEntries_rest [where fs = fs and dir = dir and items = items, OF assms] by blast
  have 1: "\<forall>e\<in>set rest. (isDir e \<longrightarrow> \<not> startsWith (name e) ''.'') \<and>
                        (\<not> isDir e \<longrightarrow> extname (name e) = ''.ts'' \<or> extname (name e) = ''.js'')"
    unfolding s by (auto simp: EXTENSIONS_def)
  have 2: "\<forall>d\<in>set items. isDirectory d \<and> startsWith (dname d) ''.'' \<longrightarrow>
              \<lparr>name = dname d, isDir = True\<rparr> \<notin> set rest"
    using 1 by force
  have 3: "\<forall>d\<in>set items. isFile d \<and> extname (dname d) \<noteq> ''.ts'' \<and> extname (dname d) \<noteq> ''.js'' \<longrightarrow>
              \<lparr>name = dname d, isDir = False\<rparr> \<notin> set rest"
    using 1 by force
  from r 1 2 3 show ?thesis by blast
qed

theorem hidden_dirs_and_other_files_excluded_witness:
  "getEntries sample_cfg sample_fs ''/tmp/proj'' = Inr sample_entries \<and>
   \<lparr>name = ''.git'', isDir = True\<rparr> \<notin> set sample_entries \<and>
   \<lparr>name = ''notes.txt'', isDir = False\<rparr> \<notin> set sample_entries"
proof -
  have f: "sample_fs ''/tmp/proj'' = Some sample_items" by (simp add: sample_fs_def)
  obtain rest where r: "getEntries sample_cfg sample_fs ''/tmp/proj'' =
           Inr ((if resolve (cwd sample_cfg) ''/tmp/proj'' \<noteq>
                    resolve (cwd sample_cfg) (ROOT_DIR sample_cfg)
                 then [\<lparr>name = ''..'', isDir = True\<rparr>] else []) @ rest)"
    and 2: "\<forall>d\<in>set sample_items. isDirectory d \<and> startsWith (dname d) ''.'' \<longrightarrow>
              \<lparr>name = dname d, isDir = True\<rparr> \<notin> set rest"
    and 3: "\<forall>d\<in>set sample_items. isFile d \<and> extname (dname d) \<noteq> ''.ts'' \<and>
              extname (dname d) \<noteq> ''.js'' \<longrightarrow> \<lparr>name = dname d, isDir = False\<rparr> \<notin> set rest"
    using hidden_dirs_and_other_files_excluded [where fs = sample_fs and dir = "''/tmp/proj''"
        and items = sample_items and cfg = sample_cfg, OF f] by blast
  have rest: "rest = sample_entries"
    using r unfolding sample_listing sample_root sample_resolve_root by simp
  have g: "\<lparr>dname = ''.git'', dtype = Directory\<rparr> \<in> set sample_items"
    and n: "\<lparr>dname = ''notes.txt'', dtype = File\<rparr> \<in> set sample_items"
    by (simp_all add: sample_items_def)
  have a: "\<lparr>name = ''.git'', isDir = True\<rparr> \<notin> set sample_entries"
    using 2 g unfolding rest by (force simp: isDirectory_def startsWith_def)
  have b: "\<lparr>name = ''notes.txt'', isDir = False\<rparr> \<notin> set sample_entries"
    using 3 n unfolding rest by (force simp: isFile_def ext1)
  from sample_listing a b show ?thesis by blast
qed

text \<open>
  Claim C10.  The test for a leading \<open>.\<close> is applied to directories only.  A file is listed
  exactly when its extension is \<open>.ts\<close> or \<open>.js\<close>, whatever its first character: the file
  \<open>.setup.ts\<close> has the extension \<open>.ts\<close> and is listed.  The names \<open>.ts\<close> and \<open>.js\<close> have
  the empty extension, so no entry of a listing has either name.
\<close>

theorem dot_files_listed_bare_extensions_not:
  assumes "fs dir = Some items" and "getEntries cfg fs dir = Inr es"
  shows "(\<forall>e. e \<in> set es \<and> \<not> isDir e \<longleftrightarrow>
            (\<exists>d\<in>set items. isFile d \<and> extname (dname d) \<in> set EXTENSIONS \<and>
               e = \<lparr>name = dname d, isDir = False\<rparr>)) \<and>
         startsWith ''.setup.ts'' ''.'' \<and> extname ''.setup.ts'' = ''.ts'' \<and>
         (\<lparr>dname = ''.setup.ts'', dtype = File\<rparr> \<in> set items \<longrightarrow>
            \<lparr>name = ''.setup.ts'', isDir = False\<rparr> \<in> set es) \<and>
         extname ''.ts'' = [] \<and> extname ''.js'' = [] \<and>
         (\<forall>e\<in>set es. name e \<noteq> ''.ts'' \<and> name e \<noteq> ''.js'')"
proof -
  obtain rest where r: "getEntries cfg fs dir =
           Inr ((if resolve (cwd cfg) dir \<noteq> resolve (cwd cfg) (ROOT_DIR cfg)
                 then [\<lparr>name = ''..'', isDir = True\<rparr>] else []) @ rest)"
    and s: "set rest =
           (\<lambda>d. \<lparr>name = dname d, isDir = True\<rparr>) `
              {d \<in> set items. isDirectory d \<and> \<not> startsWith (dname d) ''.''} \<union>
           (\<lambda>d. \<lparr>name = dname d, isDir = False\<rparr>) `
              {d \<in> set items. isFile d \<and> extname (dname d) \<in> set EXTENSIONS}"
    using getEntries_rest [where fs = fs and dir = dir and items = items, OF assms(1)] by blast
  have es: "set es = set (if resolve (cwd cfg) dir \<noteq> resolve (cwd cfg) (ROOT_DIR cfg)
                 then [\<lparr>name = ''..'', isDir = True\<rparr>] else []) \<union> set rest"
    using r assms(2) by auto
  have 1: "\<forall>e. e \<in> set es \<and> \<not> isDir e \<longleftrightarrow>
            (\<exists>d\<in>set items. isFile d \<and> extname (dname d) \<in> set EXTENSIONS \<and>
               e = \<lparr>name = dname d, isDir = False\<rparr>)"
    unfolding es s by auto
  have 2: "startsWith ''.setup.ts'' ''.''" by (simp add: startsWith_def)
  have 3: "\<lparr>dname = ''.setup.ts'', dtype = File\<rparr> \<in> set items \<longrightarrow>
            \<lparr>name = ''.setup.ts'', isDir = False\<rparr> \<in> set es"
  proof
    assume "\<lparr>dname = ''.setup.ts'', dtype = File\<rparr> \<in> set items"
    then have "\<exists>d\<in>set items. isFile d \<and> extname (dname d) \<in> set EXTENSIONS \<and>
               \<lparr>name = ''.setup.ts'', isDir = False\<rparr> = \<lparr>name = dname d, isDir = False\<rparr>"
      by (intro bexI [of _ "\<lparr>dname = ''.setup.ts'', dtype = File\<rparr>"])
        (simp_all add: isFile_def ext1 EXTENSIONS_def)
    then show "\<lparr>name = ''.setup.ts'', isDir = False\<rparr> \<in> set es" using 1 by blast
  qed
  have 4: "\<forall>e\<in>set es. name e \<noteq> ''.ts'' \<and> name e \<noteq> ''.js''"
    unfolding es s by (auto simp: startsWith_def ext1 EXTENSIONS_def)
  from 1 2 3 4 ext1(4,5,6) show ?thesis by blast
qed

theorem dot_files_listed_bare_extensions_not_witness:
  "\<lparr>name = ''.setup.ts'', isDir = False\<rparr> \<in> set sample_entries \<and>
   \<lparr>dname = ''.ts'', dtype = File\<rparr> \<in> set sample_items \<and>
   \<not> (\<exists>e. e \<in> set sample_entries \<and> (name e = ''.ts'' \<or> name e = ''.js''))"
proof -
  have f: "sample_fs ''/tmp/proj'' = Some sample_items" by (simp add: sample_fs_def)
  note t = dot_files_listed_bare_extensions_not [where fs = sample_fs and dir = "''/tmp/proj''"
      and items = sample_items, OF f sample_listing]
  have s: "\<lparr>dname = ''.setup.ts'', dtype = File\<rparr> \<in> set sample_items"
    and b: "\<lparr>dname = ''.ts'', dtype = File\<rparr> \<in> set sample_items"
    by (simp_all add: sample_items_def)
  have 1: "\<lparr>name = ''.setup.ts'', isDir = False\<rparr> \<in> set sample_entries" using t s by blast
  have 2: "\<forall>e\<in>set sample_entries. name e \<noteq> ''.ts'' \<and> name e \<noteq> ''.js''" using t by blast
  from 1 b 2 show ?thesis by blast
qed

section \<open>Quitting and acknowledging\<close>

lemma posix_names_sample_fs: "posix_names sample_fs"
  unfolding posix_names_def
proof (intro allI impI)
  fix p items
  assume "sample_fs p = Some items"
  then have "items = sample_items \<or> items = [\<lparr>dname = ''b.js'', dtype = File\<rparr>]"
    by (auto simp: sample_fs_def split: if_splits)
  then show "\<forall>d\<in>set items. dname d \<noteq> [] \<and> CHR ''/'' \<notin> set (dname d)"
    by (auto simp: sample_items_def)
qed

lemma sample_main:
  "\<exists>st. main sample_cfg sample_fs = Inr (Running st) \<and> currentDir st = ''/tmp/proj'' \<and>
     selected st = Num 0 \<and> \<not> waitingForKey st \<and> entries st = sample_entries"
proof -
  have ne: "length sample_entries \<noteq> 0" by (simp add: sample_entries_def)
  show ?thesis
    unfolding main_def Let_def using ne by (simp add: sample_root sample_listing)
qed

lemma sample_reachable_waiting:
  "\<exists>st. reachable sample_cfg st \<and> waitingForKey st \<and> currentDir st = ''/tmp/proj''"
proof -
  obtain st0 where m: "main sample_cfg sample_fs = Inr (Running st0)"
    and c0: "currentDir st0 = ''/tmp/proj''" and s0: "selected st0 = Num 0"
    and w0: "\<not> waitingForKey st0" and e0: "entries st0 = sample_entries"
    using sample_main by blast
  have r0: "reachable sample_cfg st0"
    using posix_names_sample_fs m by (rule reachable.start)
  define st1 where "st1 = render (st0\<lparr>selected :=
       js_rem (js_add (js_add (selected st0) (- 1)) (int (length (entries st0))))
         (int (length (entries st0)))\<rparr>)"
  have k1: "keypress sample_cfg sample_fs sample_sp (Some \<lparr>key_name = Some ''up'', ctrl = False\<rparr>) st0
      = Inr (Running st1)"
    unfolding st1_def using w0 by (rule keypress_up)
  have r1: "reachable sample_cfg st1"
    using r0 posix_names_sample_fs k1 by (rule reachable.event)
  have s1: "selected st1 = Num 4" and e1: "entries st1 = sample_entries"
    and c1: "currentDir st1 = ''/tmp/proj''" and w1: "\<not> waitingForKey st1"
    unfolding st1_def using s0 e0 c0 w0 by (simp_all add: sample_entries_def)
  have i1: "js_index (entries st1) (selected st1) = Some \<lparr>name = ''y.js'', isDir = False\<rparr>"
    unfolding s1 e1 by (simp add: sample_entries_def)
  define st2 where "st2 = (runFile sample_cfg sample_sp (name \<lparr>name = ''y.js'', isDir = False\<rparr>) st1)
      \<lparr>waitingForKey := True\<rparr>"
  have k2: "keypress sample_cfg sample_fs sample_sp (Some \<lparr>key_name = Some ''return'', ctrl = False\<rparr>) st1
      = Inr (Running st2)"
    unfolding st2_def using w1 _ i1 by (rule keypress_return_file) simp_all
  have r2: "reachable sample_cfg st2"
    using r1 posix_names_sample_fs k2 by (rule reachable.event)
  have "waitingForKey st2" and "currentDir st2 = ''/tmp/proj''"
    unfolding st2_def using c1 by simp_all
  with r2 show ?thesis by blast
qed

text \<open>
  Claim C9 as stated fails: the acknowledgment re-lists the current directory, and a
  listing that fails ends the process.  In a state the sample run reaches, waiting for the
  acknowledgment, with the directory no longer readable, the key \<open>q\<close> leaves the handler
  with the uncaught file system error.
\<close>

theorem ack_key_can_end_process:
  "\<exists>st. reachable sample_cfg st \<and> waitingForKey st \<and>
     keypress sample_cfg unreadable_fs sample_sp (Some \<lparr>key_name = Some ''q'', ctrl = False\<rparr>) st
       = Inl (FilesystemError ''/tmp/proj'')"
proof -
  obtain st where r: "reachable sample_cfg st" and w: "waitingForKey st"
    and c: "currentDir st = ''/tmp/proj''"
    using sample_reachable_waiting by blast
  have "getEntries sample_cfg unreadable_fs (currentDir st) = Inl (FilesystemError ''/tmp/proj'')"
    unfolding c by (simp add: getEntries_None unreadable_fs_def)
  then have "keypress sample_cfg unreadable_fs sample_sp
      (Some \<lparr>key_name = Some ''q'', ctrl = False\<rparr>) st = Inl (FilesystemError ''/tmp/proj'')"
    using w by (simp add: keypress_ack)
  with r w show ?thesis by blast
qed

text \<open>
  Claim C9, as amended.  While the script waits for the acknowledgment, no key reaches the
  quit action: every key, \<open>q\<close> and ctrl+c included, is taken as the acknowledgment and
  makes the handler re-list the current directory.  When the listing succeeds the handler
  returns to browsing with the fresh listing; when it fails the file system error leaves
  the handler uncaught.  The quit action, with exit code 0, is reached only from browsing
  mode, on \<open>q\<close> or ctrl+c.
\<close>

theorem ack_before_quit:
  "(waitingForKey st \<longrightarrow>
      (\<forall>c st'. keypress cfg fs sp k st \<noteq> Inr (Exited c st')) \<and>
      (\<forall>ky es. k = Some ky \<and> getEntries cfg fs (currentDir st) = Inr es \<longrightarrow>
         (\<exists>st'. keypress cfg fs sp k st = Inr (Running st') \<and> \<not> waitingForKey st' \<and>
            entries st' = es \<and> currentDir st' = currentDir st)) \<and>
      (\<forall>ky e. k = Some ky \<and> getEntries cfg fs (currentDir st) = Inl e \<longrightarrow>
         keypress cfg fs sp k st = Inl e)) \<and>
   (\<forall>c st'. keypress cfg fs sp k st = Inr (Exited c st') \<longrightarrow>
      \<not> waitingForKey st \<and> c = 0 \<and>
      (\<exists>ky. k = Some ky \<and> (key_name ky = Some ''q'' \<or> (ctrl ky \<and> key_name ky = Some ''c''))))"
proof (intro conjI impI allI)
  fix c st'
  assume w: "waitingForKey st"
  show "keypress cfg fs sp k st \<noteq> Inr (Exited c st')"
    using w keypress_exited [of cfg fs sp k st c st'] by blast
next
  fix ky es
  assume w: "waitingForKey st"
    and "k = Some ky \<and> getEntries cfg fs (currentDir st) = Inr es"
  then show "\<exists>st'. keypress cfg fs sp k st = Inr (Running st') \<and> \<not> waitingForKey st' \<and>
            entries st' = es \<and> currentDir st' = currentDir st"
    by (simp add: keypress_ack)
next
  fix ky e
  assume w: "waitingForKey st"
    and "k = Some ky \<and> getEntries cfg fs (currentDir st) = Inl e"
  then show "keypress cfg fs sp k st = Inl e"
    by (simp add: keypress_ack)
next
  fix c st'
  assume e: "keypress cfg fs sp k st = Inr (Exited c st')"
  show "\<not> waitingForKey st" using keypress_exited [OF e] by blast
  show "c = 0" using keypress_exited [OF e] by blast
  show "\<exists>ky. k = Some ky \<and> (key_name ky = Some ''q'' \<or> (ctrl ky \<and> key_name ky = Some ''c''))"
    using keypress_exited [OF e] by blast
qed

theorem ack_before_quit_witness:
  "(\<exists>st. reachable sample_cfg st \<and> waitingForKey st \<and>
      (\<forall>c st'. keypress sample_cfg sample_fs sample_sp (Some \<lparr>key_name = Some ''c'', ctrl = True\<rparr>)
          st \<noteq> Inr (Exited c st')) \<and>
      (\<exists>st'. keypress sample_cfg sample_fs sample_sp (Some \<lparr>key_name = Some ''c'', ctrl = True\<rparr>)
          st = Inr (Running st') \<and> \<not> waitingForKey st' \<and>
          entries st' = sample_entries \<and> currentDir st' = ''/tmp/proj'') \<and>
      keypress sample_cfg unreadable_fs sample_sp (Some \<lparr>key_name = Some ''c'', ctrl = True\<rparr>) st
        = Inl (FilesystemError ''/tmp/proj'')) \<and>
   keypress sample_cfg sample_fs sample_sp (Some \<lparr>key_name = Some ''c'', ctrl = True\<rparr>) sample_st
     = Inr (Exited 0 (sample_st\<lparr>out := [ClearScreen]\<rparr>))"
proof -
  obtain st where r: "reachable sample_cfg st" and w: "waitingForKey st"
    and cd: "currentDir st = ''/tmp/proj''"
    using sample_reachable_waiting by blast
  have l: "getEntries sample_cfg sample_fs (currentDir st) = Inr sample_entries"
    by (simp add: cd sample_listing)
  have f: "getEntries sample_cfg unreadable_fs (currentDir st) = Inl (FilesystemError ''/tmp/proj'')"
    unfolding cd by (simp add: getEntries_None unreadable_fs_def)
  note t = ack_before_quit [where st = st and cfg = sample_cfg and fs = sample_fs
      and sp = sample_sp and k = "Some \<lparr>key_name = Some ''c'', ctrl = True\<rparr>"]
  note u = ack_before_quit [where st = st and cfg = sample_cfg and fs = unreadable_fs
      and sp = sample_sp and k = "Some \<lparr>key_name = Some ''c'', ctrl = True\<rparr>"]
  have 1: "\<forall>c st'. keypress sample_cfg sample_fs sample_sp
       (Some \<lparr>key_name = Some ''c'', ctrl = True\<rparr>) st \<noteq> Inr (Exited c st')"
    using t w by blast
  have 2: "\<exists>st'. keypress sample_cfg sample_fs sample_sp (Some \<lparr>key_name = Some ''c'', ctrl = True\<rparr>)
       st = Inr (Running st') \<and> \<not> waitingForKey st' \<and>
       entries st' = sample_entries \<and> currentDir st' = ''/tmp/proj''"
    using t w l unfolding cd by blast
  have 3: "keypress sample_cfg unreadable_fs sample_sp (Some \<lparr>key_name = Some ''c'', ctrl = True\<rparr>) st
        = Inl (FilesystemError ''/tmp/proj'')"
    using u w f by blast
  have 4: "keypress sample_cfg sample_fs sample_sp (Some \<lparr>key_name = Some ''c'', ctrl = True\<rparr>)
       sample_st = Inr (Exited 0 (sample_st\<lparr>out := [ClearScreen]\<rparr>))"
    by (simp add: keypress_quit sample_st_def)
  from r w 1 2 3 4 show ?thesis by blast
qed

section \<open>Paths in normal form\<close>

lemma split_slash_not_Nil [simp]: "split_slash p \<noteq> []"
  by (induction p) (auto split: list.splits)

lemma split_slash_plain: "CHR ''/'' \<notin> set s \<Longrightarrow> split_slash s = [s]"
  by (induction s) auto

lemma split_slash_append:
  "CHR ''/'' \<notin> set s \<Longrightarrow> split_slash (s @ CHR ''/'' # rest) = s # split_slash rest"
  by (induction s) auto

lemma split_slash_free: "\<forall>s\<in>set (split_slash p). CHR ''/'' \<notin> set s"
  by (induction p) (auto split: list.splits)

lemma join_slash_snoc:
  "join_slash (xs @ [y]) = (if xs = [] then y else join_slash xs @ CHR ''/'' # y)"
  by (induction xs rule: join_slash.induct) auto

lemma join_slash_eq_Nil:
  "\<forall>s\<in>set segs. s \<noteq> [] \<Longrightarrow> join_slash segs = [] \<longleftrightarrow> segs = []"
  by (induction segs rule: join_slash.induct) auto

lemma split_join_append:
  assumes "segs \<noteq> []" and "\<forall>s\<in>set segs. CHR ''/'' \<notin> set s"
  shows "split_slash (join_slash segs @ CHR ''/'' # rest) = segs @ split_slash rest"
  using assms
proof (induction segs rule: join_slash.induct)
  case 1
  then show ?case by simp
next
  case (2 s)
  then show ?case by (simp add: split_slash_append)
next
  case (3 s t ss)
  then show ?case by (simp add: split_slash_append)
qed

lemma split_join:
  assumes "segs \<noteq> []" and "\<forall>s\<in>set segs. CHR ''/'' \<notin> set s"
  shows "split_slash (join_slash segs) = segs"
  using assms
proof (induction segs rule: join_slash.induct)
  case 1
  then show ?case by simp
next
  case (2 s)
  then show ?case by (simp add: split_slash_plain)
next
  case (3 s t ss)
  then show ?case by (simp add: split_slash_append)
qed

lemma normalizeString_clean_prefix:
  "\<forall>s\<in>set segs. clean_seg s \<Longrightarrow>
   normalizeString a res (segs @ rest) = normalizeString a (rev segs @ res) rest"
  by (induction segs arbitrary: res) (auto simp: clean_seg_def)

lemma normalizeString_clean:
  "\<forall>s\<in>set segs. clean_seg s \<Longrightarrow> normalizeString a [] segs = segs"
  using normalizeString_clean_prefix [of segs a "[]" "[]"] by simp

lemma normalizeString_gives_clean:
  "\<forall>s\<in>set xs. CHR ''/'' \<notin> set s \<Longrightarrow> \<forall>s\<in>set res. clean_seg s \<Longrightarrow>
   \<forall>s\<in>set (normalizeString False res xs). clean_seg s"
proof (induction xs arbitrary: res)
  case Nil
  then show ?case by simp
next
  case (Cons x xs)
  show ?case
  proof (cases "x = [] \<or> x = ''.''")
    case True
    then show ?thesis using Cons by auto
  next
    case False
    show ?thesis
    proof (cases "x = ''..''")
      case True
      show ?thesis
      proof (cases res)
        case Nil
        have "\<forall>s\<in>set (normalizeString False [] xs). clean_seg s"
          using Cons.IH [of "[]"] Cons.prems(1) by simp
        then show ?thesis using True Nil by simp
      next
        case (Cons r rs)
        have r: "r \<noteq> ''..''" and rs: "\<forall>s\<in>set rs. clean_seg s"
          using Cons.prems(2) Cons by (auto simp: clean_seg_def)
        have "\<forall>s\<in>set (normalizeString False rs xs). clean_seg s"
          using Cons.IH [of rs] Cons.prems(1) rs by simp
        then show ?thesis using True Cons r by simp
      qed
    next
      case no: False
      have xs: "\<forall>s\<in>set xs. CHR ''/'' \<notin> set s" using Cons.prems(1) by simp
      have "clean_seg x" using False no Cons.prems(1) by (simp add: clean_seg_def)
      then have "\<forall>s\<in>set (x # res). clean_seg s" using Cons.prems(2) by simp
      then have "\<forall>s\<in>set (normalizeString False (x # res) xs). clean_seg s"
        by (rule Cons.IH [OF xs])
      then show ?thesis using False no by simp
    qed
  qed
qed

lemma segments_clean: "\<forall>s\<in>set (segments p). clean_seg s"
  unfolding segments_def using normalizeString_gives_clean [of "split_slash p" "[]"] split_slash_free
  by simp

lemma segments_abs_path:
  assumes "\<forall>s\<in>set segs. clean_seg s"
  shows "segments (abs_path segs) = segs"
proof (cases "segs = []")
  case True
  then show ?thesis by (simp add: segments_def abs_path_def)
next
  case False
  have sf: "\<forall>s\<in>set segs. CHR ''/'' \<notin> set s" using assms by (simp add: clean_seg_def)
  have "split_slash (abs_path segs) = [] # segs"
    by (simp add: abs_path_def split_join [OF False sf])
  then show ?thesis by (simp add: segments_def normalizeString_clean [OF assms])
qed

lemma normalized_absolute_abs_path:
  assumes "\<forall>s\<in>set segs. clean_seg s"
  shows "normalized_absolute (abs_path segs)"
proof -
  have s: "segments (abs_path segs) = segs" by (rule segments_abs_path [OF assms])
  show ?thesis unfolding normalized_absolute_def s by (simp add: abs_path_def)
qed

lemma normalized_absolute_segments:
  "normalized_absolute p \<Longrightarrow> p = abs_path (segments p)"
  unfolding normalized_absolute_def abs_path_def by assumption

lemma abs_path_inject:
  assumes "\<forall>s\<in>set a. clean_seg s" and "\<forall>s\<in>set b. clean_seg s" and "abs_path a = abs_path b"
  shows "a = b"
  using segments_abs_path [OF assms(1)] segments_abs_path [OF assms(2)] assms(3) by metis

lemma isAbsolute_abs_path [simp]: "isAbsolute (abs_path segs)"
  by (simp add: isAbsolute_def abs_path_def)

lemma resolve_absolute:
  assumes "isAbsolute c \<or> isAbsolute p"
  shows "\<exists>segs. (\<forall>s\<in>set segs. clean_seg s) \<and> resolve c p = abs_path segs"
proof -
  let ?r1 = "if p = [] then [] else p @ ''/''"
  let ?r2 = "if isAbsolute p \<or> c = [] then ?r1 else c @ ''/'' @ ?r1"
  have a2: "(isAbsolute p \<or> isAbsolute c) = True" using assms by auto
  have "resolve c p = abs_path (segments ?r2)"
    unfolding resolve_def Let_def a2 abs_path_def segments_def by simp
  then show ?thesis using segments_clean by blast
qed

lemma resolve_abs_path:
  assumes "\<forall>s\<in>set segs. clean_seg s"
  shows "resolve c (abs_path segs) = abs_path segs"
proof -
  have sf: "\<forall>s\<in>set segs. CHR ''/'' \<notin> set s" using assms by (simp add: clean_seg_def)
  have ne: "abs_path segs \<noteq> []" by (simp add: abs_path_def)
  have sp: "normalizeString False [] (split_slash (abs_path segs @ ''/'')) = segs"
  proof (cases "segs = []")
    case True
    then show ?thesis by (simp add: abs_path_def)
  next
    case False
    have "split_slash (abs_path segs @ ''/'') = [] # segs @ [[]]"
      using split_join_append [OF False sf, of "[]"] by (simp add: abs_path_def)
    then show ?thesis
      using normalizeString_clean_prefix [OF assms, of False "[]" "[[]]"] by simp
  qed
  have "resolve c (abs_path segs) =
      CHR ''/'' # join_slash (normalizeString False [] (split_slash (abs_path segs @ ''/'')))"
    using ne by (simp add: resolve_def Let_def)
  then show ?thesis unfolding sp by (simp add: abs_path_def)
qed

lemma join_abs_path:
  assumes "\<forall>s\<in>set segs. clean_seg s" and "clean_seg n"
  shows "join (abs_path segs) n = abs_path (segs @ [n])"
proof -
  have sf: "\<forall>s\<in>set segs. CHR ''/'' \<notin> set s" using assms(1) by (simp add: clean_seg_def)
  have n: "n \<noteq> []" "CHR ''/'' \<notin> set n" using assms(2) by (simp_all add: clean_seg_def)
  let ?j = "abs_path segs @ CHR ''/'' # n"
  have last: "last ?j \<noteq> CHR ''/''" using n by (metis last_appendR last_ConsR last_in_set list.distinct(1))
  have all: "\<forall>s\<in>set (segs @ [n]). clean_seg s" using assms by simp
  have sp: "normalizeString False [] (split_slash ?j) = segs @ [n]"
  proof (cases "segs = []")
    case True
    then show ?thesis using assms(2) n by (simp add: abs_path_def split_slash_plain clean_seg_def)
  next
    case False
    have "split_slash ?j = [] # segs @ [n]"
      using split_join_append [OF False sf, of n] n by (simp add: abs_path_def split_slash_plain)
    then show ?thesis using normalizeString_clean [OF all] by simp
  qed
  have jn: "join_slash (segs @ [n]) \<noteq> []"
    using join_slash_eq_Nil [of "segs @ [n]"] all by (auto simp: clean_seg_def)
  have "join (abs_path segs) n = normalize ?j"
    using n by (simp add: join_def abs_path_def)
  also have "\<dots> = CHR ''/'' # join_slash (segs @ [n])"
  proof -
    have hd: "hd ?j = CHR ''/''" and ne: "?j \<noteq> []" by (simp_all add: abs_path_def)
    show ?thesis unfolding normalize_def Let_def hd using ne last jn by (simp add: sp)
  qed
  finally show ?thesis by (simp add: abs_path_def)
qed

lemma dirname_abs_path:
  assumes "\<forall>s\<in>set segs. clean_seg s" and "clean_seg s"
  shows "dirname (abs_path (segs @ [s])) = abs_path segs"
proof -
  have s: "s \<noteq> []" "CHR ''/'' \<notin> set s" using assms(2) by (simp_all add: clean_seg_def)
  have d1: "dropWhile (\<lambda>c. c = CHR ''/'') (rev s @ xs) = rev s @ xs" for xs
    using s by (cases "rev s") auto
  have d2: "dropWhile (\<lambda>c. c \<noteq> CHR ''/'') (rev s @ CHR ''/'' # xs) = CHR ''/'' # xs" for xs
    using s by (subst dropWhile_append3) auto
  have d3: "dropWhile (\<lambda>c. c \<noteq> CHR ''/'') (rev s) = []"
    using s by auto
  show ?thesis
  proof (cases "segs = []")
    case True
    have "dirname (CHR ''/'' # s) = ''/''"
      using d1 [of "[]"] d3 by (simp add: dirname_def)
    then show ?thesis using True by (simp add: abs_path_def)
  next
    case False
    let ?J = "join_slash segs"
    have J: "?J \<noteq> []" using join_slash_eq_Nil [of segs] assms(1) False by (auto simp: clean_seg_def)
    have p: "abs_path (segs @ [s]) = CHR ''/'' # ?J @ CHR ''/'' # s"
      using False by (simp add: abs_path_def join_slash_snoc)
    have r: "dropWhile (\<lambda>c. c \<noteq> CHR ''/'')
        (dropWhile (\<lambda>c. c = CHR ''/'') (rev s @ CHR ''/'' # rev ?J)) = CHR ''/'' # rev ?J"
      unfolding d1 d2 by (rule refl)
    have "dirname (CHR ''/'' # ?J @ CHR ''/'' # s) = CHR ''/'' # ?J"
      using J by (simp add: dirname_def Let_def r)
    then show ?thesis unfolding p by (simp add: abs_path_def)
  qed
qed

section \<open>The current directory stays within the root\<close>

lemma ext_dots: "extname ''.'' = []" "extname ''..'' = []"
  by code_simp+

lemma getEntries_Inr_Some: "getEntries cfg fs dir = Inr es \<Longrightarrow> \<exists>items. fs dir = Some items"
  by (cases "fs dir") (simp_all add: getEntries_def)

lemma parent_listed_iff:
  assumes "getEntries cfg fs dir = Inr es"
  shows "\<lparr>name = ''..'', isDir = True\<rparr> \<in> set es \<longleftrightarrow>
         resolve (cwd cfg) dir \<noteq> resolve (cwd cfg) (ROOT_DIR cfg)"
proof -
  obtain items where it: "fs dir = Some items" using getEntries_Inr_Some [OF assms] by blast
  obtain rest where r: "getEntries cfg fs dir =
           Inr ((if resolve (cwd cfg) dir \<noteq> resolve (cwd cfg) (ROOT_DIR cfg)
                 then [\<lparr>name = ''..'', isDir = True\<rparr>] else []) @ rest)"
    and s: "set rest =
           (\<lambda>d. \<lparr>name = dname d, isDir = True\<rparr>) `
              {d \<in> set items. isDirectory d \<and> \<not> startsWith (dname d) ''.''} \<union>
           (\<lambda>d. \<lparr>name = dname d, isDir = False\<rparr>) `
              {d \<in> set items. isFile d \<and> extname (dname d) \<in> set EXTENSIONS}"
    using getEntries_rest [where fs = fs and dir = dir and items = items, OF it] by blast
  have n: "\<lparr>name = ''..'', isDir = True\<rparr> \<notin> set rest"
  proof
    assume "\<lparr>name = ''..'', isDir = True\<rparr> \<in> set rest"
    then have "\<lparr>name = ''..'', isDir = True\<rparr> \<in> (\<lambda>d. \<lparr>name = dname d, isDir = True\<rparr>) `
              {d \<in> set items. isDirectory d \<and> \<not> startsWith (dname d) ''.''}"
      unfolding s by blast
    then show False
    proof (elim imageE CollectE conjE)
      fix d
      assume eq: "\<lparr>name = ''..'', isDir = True\<rparr> = \<lparr>name = dname d, isDir = True\<rparr>"
        and d: "\<not> startsWith (dname d) ''.''"
      from eq have "dname d = ''..''" by simp
      with d show False by (simp add: startsWith_def)
    qed
  qed
  have es: "es = (if resolve (cwd cfg) dir \<noteq> resolve (cwd cfg) (ROOT_DIR cfg)
                 then [\<lparr>name = ''..'', isDir = True\<rparr>] else []) @ rest"
    using r assms by simp
  show ?thesis using n unfolding es by simp
qed

lemma listing_entries_clean:
  assumes "posix_names fs" and "getEntries cfg fs dir = Inr es"
  shows "(\<forall>e\<in>set es. e = \<lparr>name = ''..'', isDir = True\<rparr> \<or> clean_seg (name e)) \<and>
         (\<forall>e\<in>set es. \<not> isDir e \<longrightarrow> extname (name e) \<in> set EXTENSIONS)"
proof -
  obtain items where it: "fs dir = Some items" using getEntries_Inr_Some [OF assms(2)] by blast
  have px: "\<forall>d\<in>set items. dname d \<noteq> [] \<and> CHR ''/'' \<notin> set (dname d)"
    using assms(1) it unfolding posix_names_def by blast
  obtain rest where r: "getEntries cfg fs dir =
           Inr ((if resolve (cwd cfg) dir \<noteq> resolve (cwd cfg) (ROOT_DIR cfg)
                 then [\<lparr>name = ''..'', isDir = True\<rparr>] else []) @ rest)"
    and s: "set rest =
           (\<lambda>d. \<lparr>name = dname d, isDir = True\<rparr>) `
              {d \<in> set items. isDirectory d \<and> \<not> startsWith (dname d) ''.''} \<union>
           (\<lambda>d. \<lparr>name = dname d, isDir = False\<rparr>) `
              {d \<in> set items. isFile d \<and> extname (dname d) \<in> set EXTENSIONS}"
    using getEntries_rest [where fs = fs and dir = dir and items = items, OF it] by blast
  have es: "set es \<subseteq> insert \<lparr>name = ''..'', isDir = True\<rparr> (set rest)"
    using r assms(2) by auto
  have d: "clean_seg (dname d)" if "d \<in> set items" "\<not> startsWith (dname d) ''.''" for d
    using px that by (auto simp: clean_seg_def startsWith_def)
  have f: "clean_seg (dname d)" if "d \<in> set items" "extname (dname d) \<in> set EXTENSIONS" for d
    using px that ext_dots by (auto simp: clean_seg_def EXTENSIONS_def)
  have 1: "\<forall>e\<in>set rest. clean_seg (name e)"
    unfolding s using d f by auto
  have 2: "\<forall>e\<in>set rest. \<not> isDir e \<longrightarrow> extname (name e) \<in> set EXTENSIONS"
    unfolding s by auto
  from es 1 2 show ?thesis by auto
qed

lemma nav_inv_listing:
  assumes "posix_names fs" and "\<forall>s\<in>set (rs @ ss). clean_seg s" and "ROOT_DIR cfg = abs_path rs"
    and "getEntries cfg fs (abs_path (rs @ ss)) = Inr es"
  shows "nav_inv cfg (abs_path (rs @ ss)) es"
proof -
  have rs: "\<forall>s\<in>set rs. clean_seg s" using assms(2) by simp
  have "resolve (cwd cfg) (abs_path (rs @ ss)) = abs_path (rs @ ss)"
    using assms(2) by (rule resolve_abs_path)
  moreover have "resolve (cwd cfg) (ROOT_DIR cfg) = abs_path rs"
    unfolding assms(3) using rs by (rule resolve_abs_path)
  moreover have "abs_path (rs @ ss) \<noteq> abs_path rs \<longleftrightarrow> ss \<noteq> []"
    using abs_path_inject [OF assms(2) rs] by auto
  ultimately have p: "\<lparr>name = ''..'', isDir = True\<rparr> \<in> set es \<longleftrightarrow> ss \<noteq> []"
    using parent_listed_iff [OF assms(4)] by simp
  show ?thesis
    unfolding nav_inv_def
    using assms(2,3) listing_entries_clean [OF assms(1,4)] p by blast
qed

lemma nav_inv_relist:
  assumes "nav_inv cfg dir es" and "posix_names fs" and "getEntries cfg fs dir = Inr es'"
  shows "nav_inv cfg dir es'"
proof -
  obtain rs ss where c: "\<forall>s\<in>set (rs @ ss). clean_seg s" and r: "ROOT_DIR cfg = abs_path rs"
    and d: "dir = abs_path (rs @ ss)"
    using assms(1) unfolding nav_inv_def by blast
  show ?thesis using nav_inv_listing [OF assms(2) c r] assms(3) unfolding d by blast
qed

lemma nav_inv_enter:
  assumes "nav_inv cfg dir es" and "posix_names fs" and "cur \<in> set es" and "isDir cur"
    and "dir' = (if name cur = ''..'' then dirname dir else join dir (name cur))"
    and "getEntries cfg fs dir' = Inr es'"
  shows "nav_inv cfg dir' es'"
proof -
  obtain rs ss where c: "\<forall>s\<in>set (rs @ ss). clean_seg s" and r: "ROOT_DIR cfg = abs_path rs"
    and d: "dir = abs_path (rs @ ss)"
    and e: "\<forall>e\<in>set es. e = \<lparr>name = ''..'', isDir = True\<rparr> \<or> clean_seg (name e)"
    and p: "\<lparr>name = ''..'', isDir = True\<rparr> \<in> set es \<longleftrightarrow> ss \<noteq> []"
    using assms(1) unfolding nav_inv_def by blast
  show ?thesis
  proof (cases "name cur = ''..''")
    case True
    then have "cur = \<lparr>name = ''..'', isDir = True\<rparr>"
      using e assms(3) by (auto simp: clean_seg_def)
    then have ne: "ss \<noteq> []" using p assms(3) by simp
    then obtain ss' s where ss: "ss = ss' @ [s]" by (metis rev_exhaust)
    have c': "\<forall>s\<in>set (rs @ ss'). clean_seg s" and s: "clean_seg s" using c ss by simp_all
    have "dirname dir = abs_path (rs @ ss')"
      unfolding d ss using dirname_abs_path [OF c' s] by simp
    then have d': "dir' = abs_path (rs @ ss')" using assms(5) True by simp
    show ?thesis using nav_inv_listing [OF assms(2) c' r] assms(6) unfolding d' by blast
  next
    case False
    then have n: "clean_seg (name cur)" using e assms(3) by auto
    have c': "\<forall>s\<in>set (rs @ (ss @ [name cur])). clean_seg s" using c n by simp
    have "join dir (name cur) = abs_path (rs @ (ss @ [name cur]))"
      unfolding d using join_abs_path [OF c n] by simp
    then have d': "dir' = abs_path (rs @ (ss @ [name cur]))" using assms(5) False by simp
    show ?thesis using nav_inv_listing [OF assms(2) c' r] assms(6) unfolding d' by blast
  qed
qed

lemma js_index_in_set: "js_index xs i = Some x \<Longrightarrow> x \<in> set xs"
  by (cases i) (auto split: if_splits)

lemma keypress_cases:
  assumes "keypress cfg fs sp k st = Inr (Running st')"
  shows "(currentDir st' = currentDir st \<and> entries st' = entries st) \<or>
         (currentDir st' = currentDir st \<and>
            getEntries cfg fs (currentDir st) = Inr (entries st')) \<or>
         (\<exists>cur. cur \<in> set (entries st) \<and> isDir cur \<and>
            currentDir st' = (if name cur = ''..'' then dirname (currentDir st)
                              else join (currentDir st) (name cur)) \<and>
            getEntries cfg fs (currentDir st') = Inr (entries st'))"
proof (cases k)
  case None
  then show ?thesis using assms by (simp add: keypress_def)
next
  case (Some ky)
  show ?thesis
  proof (cases "waitingForKey st")
    case True
    then show ?thesis using assms Some
      by (auto simp: keypress_ack split: sum.splits)
  next
    case w: False
    consider (quit) "key_name ky = Some ''q'' \<or> (ctrl ky \<and> key_name ky = Some ''c'')"
      | (reload) "key_name ky = Some ''r''"
      | (up) "key_name ky = Some ''up''"
      | (down) "key_name ky = Some ''down''"
      | (return) "key_name ky = Some ''return''"
      | (other) "\<not> (key_name ky = Some ''q'' \<or> (ctrl ky \<and> key_name ky = Some ''c''))"
          "key_name ky \<noteq> Some ''r''" "key_name ky \<noteq> Some ''up''"
          "key_name ky \<noteq> Some ''down''" "key_name ky \<noteq> Some ''return''"
      by blast
    then show ?thesis
    proof cases
      case quit
      then show ?thesis using assms Some w by (simp add: keypress_quit)
    next
      case reload
      then show ?thesis using assms Some w
        by (auto simp: keypress_reload split: sum.splits)
    next
      case up
      have "keypress cfg fs sp (Some ky) st = Inr (Running (render (st\<lparr>selected :=
          js_rem (js_add (js_add (selected st) (- 1)) (int (length (entries st))))
            (int (length (entries st)))\<rparr>)))"
        using w up by (simp add: keypress_def)
      then show ?thesis using assms Some by auto
    next
      case down
      have "keypress cfg fs sp (Some ky) st = Inr (Running (render (st\<lparr>selected :=
          js_rem (js_add (selected st) 1) (int (length (entries st)))\<rparr>)))"
        using w down by (simp add: keypress_def)
      then show ?thesis using assms Some by auto
    next
      case return
      show ?thesis
      proof (cases "js_index (entries st) (selected st)")
        case None
        then show ?thesis using assms Some w return by (simp add: keypress_return)
      next
        case (Some cur)
        note cur = js_index_in_set [OF Some]
        show ?thesis
        proof (cases "isDir cur")
          case True
          let ?d = "if name cur = ''..'' then dirname (currentDir st)
                    else join (currentDir st) (name cur)"
          obtain es where g: "getEntries cfg fs ?d = Inr es"
            and s: "st' = render (st\<lparr>currentDir := ?d, selected := Num 0, entries := es\<rparr>)"
            using assms \<open>k = Some ky\<close> w return Some True
            by (auto simp: keypress_return split: sum.splits if_splits)
          have "currentDir st' = ?d" "entries st' = es" unfolding s by simp_all
          then show ?thesis using cur True g by auto
        next
          case False
          then show ?thesis using assms \<open>k = Some ky\<close> w return Some
            by (auto simp: keypress_return)
        qed
      qed
    next
      case other
      have "keypress cfg fs sp (Some ky) st = Inr (Running st)"
        using w other by (simp add: keypress_def)
      then show ?thesis using assms Some by simp
    qed
  qed
qed

lemma root_normal:
  assumes "normalized_absolute (cwd cfg)"
  shows "\<exists>rs. (\<forall>s\<in>set rs. clean_seg s) \<and> ROOT_DIR cfg = abs_path rs"
proof -
  have c: "cwd cfg = abs_path (segments (cwd cfg))"
    using assms by (rule normalized_absolute_segments)
  have a: "isAbsolute (cwd cfg)" by (subst c) simp
  show ?thesis
  proof (cases "\<exists>a. argv2 cfg = Some a \<and> a \<noteq> []")
    case True
    then obtain a where "argv2 cfg = Some a" "a \<noteq> []" by blast
    then have "ROOT_DIR cfg = resolve (cwd cfg) a" by (simp add: ROOT_DIR_def)
    then show ?thesis using resolve_absolute [of "cwd cfg" a] a by auto
  next
    case False
    then have "ROOT_DIR cfg = cwd cfg" by (auto simp: ROOT_DIR_def split: option.splits)
    then show ?thesis using c segments_clean by metis
  qed
qed

lemma reachable_nav_inv:
  assumes "normalized_absolute (cwd cfg)" and "reachable cfg st"
  shows "nav_inv cfg (currentDir st) (entries st)"
  using assms(2)
proof (induction rule: reachable.induct)
  case (start fs st)
  obtain rs where rs: "\<forall>s\<in>set rs. clean_seg s" and r: "ROOT_DIR cfg = abs_path rs"
    using root_normal [OF assms(1)] by blast
  have "currentDir st = ROOT_DIR cfg \<and> getEntries cfg fs (ROOT_DIR cfg) = Inr (entries st)"
    using start(2) by (auto simp: main_def Let_def split: sum.splits if_splits)
  then show ?case
    using nav_inv_listing [where rs = rs and ss = "[]" and fs = fs and cfg = cfg and es = "entries st"]
      rs r start(1) by simp
next
  case (event st fs sp k st')
  from keypress_cases [OF event(3)] show ?case
  proof (elim disjE conjE exE)
    assume "currentDir st' = currentDir st" "entries st' = entries st"
    then show ?thesis using event.IH by simp
  next
    assume "currentDir st' = currentDir st"
      "getEntries cfg fs (currentDir st) = Inr (entries st')"
    then show ?thesis using nav_inv_relist [OF event.IH event(2)] by simp
  next
    fix cur
    assume "cur \<in> set (entries st)" "isDir cur"
      "currentDir st' = (if name cur = ''..'' then dirname (currentDir st)
                              else join (currentDir st) (name cur))"
      "getEntries cfg fs (currentDir st') = Inr (entries st')"
    then show ?thesis using nav_inv_enter [OF event.IH event(2)] by blast
  qed
qed

lemma sample_cwd_normal: "normalized_absolute (cwd sample_cfg)"
  by (simp add: normalized_absolute_def segments_def sample_cfg_def)

lemma sample_reachable_root:
  "\<exists>st. reachable sample_cfg st \<and> currentDir st = ''/tmp/proj'' \<and> selected st = Num 0 \<and>
     \<not> waitingForKey st \<and> entries st = sample_entries"
proof -
  obtain st0 where m: "main sample_cfg sample_fs = Inr (Running st0)"
    and p: "currentDir st0 = ''/tmp/proj''" "selected st0 = Num 0"
      "\<not> waitingForKey st0" "entries st0 = sample_entries"
    using sample_main by blast
  have "reachable sample_cfg st0"
    using posix_names_sample_fs m by (rule reachable.start)
  with p show ?thesis by blast
qed

lemma sample_reachable_sub:
  "\<exists>st. reachable sample_cfg st \<and> currentDir st = ''/tmp/proj/A'' \<and> entries st = sample_sub"
proof -
  obtain st0 where r0: "reachable sample_cfg st0"
    and c0: "currentDir st0 = ''/tmp/proj''" and s0: "selected st0 = Num 0"
    and w0: "\<not> waitingForKey st0" and e0: "entries st0 = sample_entries"
    using sample_reachable_root by blast
  define st1 where "st1 = render (st0\<lparr>currentDir := ''/tmp/proj/A'', selected := Num 0,
      entries := sample_sub\<rparr>)"
  have i: "js_index (entries st0) (selected st0) = Some \<lparr>name = ''A'', isDir = True\<rparr>"
    unfolding s0 e0 by (simp add: sample_entries_def)
  have k: "keypress sample_cfg sample_fs sample_sp
      (Some \<lparr>key_name = Some ''return'', ctrl = False\<rparr>) st0 = Inr (Running st1)"
    unfolding st1_def using w0 i
    by (simp add: keypress_return c0 sample_join sample_listing_sub)
  have "reachable sample_cfg st1"
    using r0 posix_names_sample_fs k by (rule reachable.event)
  moreover have "currentDir st1 = ''/tmp/proj/A''" "entries st1 = sample_sub"
    unfolding st1_def by simp_all
  ultimately show ?thesis by blast
qed

text \<open>
  Claim C1.  With \<open>process.cwd()\<close> an absolute path in normal form and POSIX names in the
  file system, in every state the script reaches the current directory is the root
  directory or lies below it, and so does the current directory after one more key event.
  The listing of a directory holds the parent entry \<open>..\<close> exactly when the resolved
  directory differs from the resolved root; the entries of a reachable state hold it
  exactly when the current directory is not the root, and at the root no entry is named
  \<open>..\<close>, so the handler cannot go to the parent from there.
\<close>

theorem browser_stays_within_root:
  assumes "normalized_absolute (cwd cfg)" and "reachable cfg st"
  shows "is_within (ROOT_DIR cfg) (currentDir st) \<and>
         normalized_absolute (ROOT_DIR cfg) \<and> normalized_absolute (currentDir st) \<and>
         (\<lparr>name = ''..'', isDir = True\<rparr> \<in> set (entries st) \<longleftrightarrow>
            currentDir st \<noteq> ROOT_DIR cfg) \<and>
         (currentDir st = ROOT_DIR cfg \<longrightarrow> (\<forall>e\<in>set (entries st). name e \<noteq> ''..'')) \<and>
         (\<forall>fs sp k st'. posix_names fs \<and> keypress cfg fs sp k st = Inr (Running st') \<longrightarrow>
            is_within (ROOT_DIR cfg) (currentDir st')) \<and>
         (\<forall>fs dir es. getEntries cfg fs dir = Inr es \<longrightarrow>
            (\<lparr>name = ''..'', isDir = True\<rparr> \<in> set es \<longleftrightarrow>
               resolve (cwd cfg) dir \<noteq> resolve (cwd cfg) (ROOT_DIR cfg)))"
proof -
  have within: "is_within (ROOT_DIR cfg) (currentDir s) \<and>
      normalized_absolute (ROOT_DIR cfg) \<and> normalized_absolute (currentDir s) \<and>
      (\<lparr>name = ''..'', isDir = True\<rparr> \<in> set (entries s) \<longleftrightarrow> currentDir s \<noteq> ROOT_DIR cfg) \<and>
      (currentDir s = ROOT_DIR cfg \<longrightarrow> (\<forall>e\<in>set (entries s). name e \<noteq> ''..''))"
    if rch: "reachable cfg s" for s
  proof -
    obtain rs ss where c: "\<forall>s\<in>set (rs @ ss). clean_seg s" and r: "ROOT_DIR cfg = abs_path rs"
      and d: "currentDir s = abs_path (rs @ ss)"
      and e: "\<forall>e\<in>set (entries s). e = \<lparr>name = ''..'', isDir = True\<rparr> \<or> clean_seg (name e)"
      and p: "\<lparr>name = ''..'', isDir = True\<rparr> \<in> set (entries s) \<longleftrightarrow> ss \<noteq> []"
      using reachable_nav_inv [OF assms(1) rch] unfolding nav_inv_def by blast
    have crs: "\<forall>s\<in>set rs. clean_seg s" using c by simp
    have 1: "is_within (ROOT_DIR cfg) (currentDir s)"
      unfolding is_within_def r d segments_abs_path [OF c] segments_abs_path [OF crs] by simp
    have 2: "normalized_absolute (ROOT_DIR cfg)"
      unfolding r using crs by (rule normalized_absolute_abs_path)
    have 3: "normalized_absolute (currentDir s)"
      unfolding d using c by (rule normalized_absolute_abs_path)
    have ne: "currentDir s \<noteq> ROOT_DIR cfg \<longleftrightarrow> ss \<noteq> []"
      unfolding r d using abs_path_inject [OF c crs] by auto
    have 4: "\<lparr>name = ''..'', isDir = True\<rparr> \<in> set (entries s) \<longleftrightarrow> currentDir s \<noteq> ROOT_DIR cfg"
      using p ne by simp
    have 5: "currentDir s = ROOT_DIR cfg \<longrightarrow> (\<forall>e\<in>set (entries s). name e \<noteq> ''..'')"
    proof (intro impI ballI)
      fix e
      assume eq: "currentDir s = ROOT_DIR cfg" and m: "e \<in> set (entries s)"
      from eq ne have "ss = []" by blast
      with p have np: "\<lparr>name = ''..'', isDir = True\<rparr> \<notin> set (entries s)" by blast
      from e m have "e = \<lparr>name = ''..'', isDir = True\<rparr> \<or> clean_seg (name e)" by (rule bspec)
      moreover from np m have "e \<noteq> \<lparr>name = ''..'', isDir = True\<rparr>" by metis
      ultimately have "clean_seg (name e)" by metis
      then show "name e \<noteq> ''..''" unfolding clean_seg_def by (elim conjE)
    qed
    from 1 2 3 4 5 show ?thesis by blast
  qed
  have step: "\<forall>fs sp k st'. posix_names fs \<and> keypress cfg fs sp k st = Inr (Running st') \<longrightarrow>
      is_within (ROOT_DIR cfg) (currentDir st')"
  proof (intro allI impI)
    fix fs sp k st'
    assume "posix_names fs \<and> keypress cfg fs sp k st = Inr (Running st')"
    then have "reachable cfg st'" using assms(2) reachable.event by blast
    then show "is_within (ROOT_DIR cfg) (currentDir st')" using within by blast
  qed
  have listing: "\<forall>fs dir es. getEntries cfg fs dir = Inr es \<longrightarrow>
      (\<lparr>name = ''..'', isDir = True\<rparr> \<in> set es \<longleftrightarrow>
         resolve (cwd cfg) dir \<noteq> resolve (cwd cfg) (ROOT_DIR cfg))"
    using parent_listed_iff by blast
  from within [OF assms(2)] step listing show ?thesis by blast
qed

theorem browser_stays_within_root_witness:
  "(\<exists>st. reachable sample_cfg st \<and> currentDir st = ''/tmp/proj'' \<and>
      is_within (ROOT_DIR sample_cfg) (currentDir st) \<and>
      \<lparr>name = ''..'', isDir = True\<rparr> \<notin> set (entries st)) \<and>
   (\<exists>st. reachable sample_cfg st \<and> currentDir st = ''/tmp/proj/A'' \<and>
      is_within (ROOT_DIR sample_cfg) (currentDir st) \<and>
      \<lparr>name = ''..'', isDir = True\<rparr> \<in> set (entries st))"
proof -
  obtain s0 where r0: "reachable sample_cfg s0" and c0: "currentDir s0 = ''/tmp/proj''"
    using sample_reachable_root by blast
  obtain s1 where r1: "reachable sample_cfg s1" and c1: "currentDir s1 = ''/tmp/proj/A''"
    using sample_reachable_sub by blast
  note t0 = browser_stays_within_root [OF sample_cwd_normal r0]
  note t1 = browser_stays_within_root [OF sample_cwd_normal r1]
  have ne: "currentDir s1 \<noteq> ROOT_DIR sample_cfg" and eq: "currentDir s0 = ROOT_DIR sample_cfg"
    unfolding c0 c1 sample_root by simp_all
  have 0: "is_within (ROOT_DIR sample_cfg) (currentDir s0) \<and>
      \<lparr>name = ''..'', isDir = True\<rparr> \<notin> set (entries s0)"
    using t0 eq by blast
  have 1: "is_within (ROOT_DIR sample_cfg) (currentDir s1) \<and>
      \<lparr>name = ''..'', isDir = True\<rparr> \<in> set (entries s1)"
    using t1 ne by blast
  from r0 c0 0 r1 c1 1 show ?thesis by blast
qed

section \<open>The interpreter command\<close>

lemma runFile_spawns: "Spawn (runFile_request cfg (currentDir st) file) \<in> set (out (runFile cfg sp file st))"
  by (simp add: runFile_def Let_def)

lemma sample_reachable_on_file:
  "\<exists>st. reachable sample_cfg st \<and> \<not> waitingForKey st \<and> currentDir st = ''/tmp/proj'' \<and>
     js_index (entries st) (selected st) = Some \<lparr>name = ''y.js'', isDir = False\<rparr>"
proof -
  obtain st0 where r0: "reachable sample_cfg st0"
    and c0: "currentDir st0 = ''/tmp/proj''" and s0: "selected st0 = Num 0"
    and w0: "\<not> waitingForKey st0" and e0: "entries st0 = sample_entries"
    using sample_reachable_root by blast
  define st1 where "st1 = render (st0\<lparr>selected :=
       js_rem (js_add (js_add (selected st0) (- 1)) (int (length (entries st0))))
         (int (length (entries st0)))\<rparr>)"
  have k1: "keypress sample_cfg sample_fs sample_sp (Some \<lparr>key_name = Some ''up'', ctrl = False\<rparr>) st0
      = Inr (Running st1)"
    unfolding st1_def using w0 by (rule keypress_up)
  have r1: "reachable sample_cfg st1"
    using r0 posix_names_sample_fs k1 by (rule reachable.event)
  have s1: "selected st1 = Num 4" and e1: "entries st1 = sample_entries"
    and c1: "currentDir st1 = ''/tmp/proj''" and w1: "\<not> waitingForKey st1"
    unfolding st1_def using s0 e0 c0 w0 by (simp_all add: sample_entries_def)
  have i1: "js_index (entries st1) (selected st1) = Some \<lparr>name = ''y.js'', isDir = False\<rparr>"
    unfolding s1 e1 by (simp add: sample_entries_def)
  from r1 w1 c1 i1 show ?thesis by blast
qed

lemma sample_full_path:
  "resolve (cwd sample_cfg) (join ''/tmp/proj'' ''y.js'') = ''/tmp/proj/y.js''"
  "resolve (cwd sample_win_cfg) (join ''/tmp/proj'' ''x.ts'') = ''/tmp/proj/x.ts''"
  by (simp_all add: join_def normalize_def resolve_def isAbsolute_def sample_cfg_def
      sample_win_cfg_def)

lemma sample_dirname: "dirname ''/tmp/proj/y.js'' = ''/tmp/proj''"
  by (simp add: dirname_def)

lemma reachable_file_path:
  assumes "normalized_absolute (cwd cfg)" and "reachable cfg st"
    and "cur \<in> set (entries st)" and "\<not> isDir cur"
  shows "extname (name cur) \<in> set EXTENSIONS \<and>
         resolve (cwd cfg) (join (currentDir st) (name cur)) = join (currentDir st) (name cur) \<and>
         dirname (join (currentDir st) (name cur)) = currentDir st"
proof -
  obtain rs ss where c: "\<forall>s\<in>set (rs @ ss). clean_seg s"
    and d: "currentDir st = abs_path (rs @ ss)"
    and e: "\<forall>e\<in>set (entries st). e = \<lparr>name = ''..'', isDir = True\<rparr> \<or> clean_seg (name e)"
    and f: "\<forall>e\<in>set (entries st). \<not> isDir e \<longrightarrow> extname (name e) \<in> set EXTENSIONS"
    using reachable_nav_inv [OF assms(1,2)] unfolding nav_inv_def by blast
  from e assms(3) have "cur = \<lparr>name = ''..'', isDir = True\<rparr> \<or> clean_seg (name cur)"
    by (rule bspec)
  moreover have "cur \<noteq> \<lparr>name = ''..'', isDir = True\<rparr>" using assms(4) by auto
  ultimately have n: "clean_seg (name cur)" by metis
  have c': "\<forall>s\<in>set ((rs @ ss) @ [name cur]). clean_seg s" using c n by simp
  have j: "join (currentDir st) (name cur) = abs_path ((rs @ ss) @ [name cur])"
    unfolding d using c n by (rule join_abs_path)
  have 1: "extname (name cur) \<in> set EXTENSIONS" using f assms(3,4) by blast
  have 2: "resolve (cwd cfg) (join (currentDir st) (name cur)) = join (currentDir st) (name cur)"
    unfolding j using c' by (rule resolve_abs_path)
  have "dirname (abs_path ((rs @ ss) @ [name cur])) = abs_path (rs @ ss)"
    using c n by (rule dirname_abs_path)
  then have 3: "dirname (join (currentDir st) (name cur)) = currentDir st"
    unfolding j [symmetric] d [symmetric] by assumption
  from 1 2 3 show ?thesis by blast
qed

text \<open>
  Claim C6.  The command \<open>runFile\<close> spawns depends on the extension of the file and on the
  platform only: \<open>npx tsx\<close> for \<open>.ts\<close> and \<open>node\<close> for \<open>.js\<close>, behind \<open>cmd /c\<close> on Windows,
  each followed by the full path of the file.  The child gets the directory of that path
  as working directory, the inherited streams and the environment of the script, and no
  shell.  In every state the script reaches, return on a file entry spawns this request:
  the file has one of the two extensions, its full path is the current directory joined
  with its name, and the working directory is the current directory.
\<close>

theorem interpreter_by_extension_and_platform:
  "(extname fname = ''.ts'' \<and> IS_WIN cfg \<longrightarrow>
      cmd (runFile_request cfg dir fname) = ''cmd'' \<and>
      args (runFile_request cfg dir fname) =
        [''/c'', ''npx'', ''tsx'', resolve (cwd cfg) (join dir fname)]) \<and>
   (extname fname = ''.ts'' \<and> \<not> IS_WIN cfg \<longrightarrow>
      cmd (runFile_request cfg dir fname) = ''npx'' \<and>
      args (runFile_request cfg dir fname) = [''tsx'', resolve (cwd cfg) (join dir fname)]) \<and>
   (extname fname = ''.js'' \<and> IS_WIN cfg \<longrightarrow>
      cmd (runFile_request cfg dir fname) = ''cmd'' \<and>
      args (runFile_request cfg dir fname) =
        [''/c'', ''node'', resolve (cwd cfg) (join dir fname)]) \<and>
   (extname fname = ''.js'' \<and> \<not> IS_WIN cfg \<longrightarrow>
      cmd (runFile_request cfg dir fname) = ''node'' \<and>
      args (runFile_request cfg dir fname) = [resolve (cwd cfg) (join dir fname)]) \<and>
   spawn_cwd (runFile_request cfg dir fname) = dirname (resolve (cwd cfg) (join dir fname)) \<and>
   stdio (runFile_request cfg dir fname) = ''inherit'' \<and>
   \<not> shell (runFile_request cfg dir fname) \<and>
   env (runFile_request cfg dir fname) = process_env cfg \<and>
   (extname fname = extname fname2 \<and> IS_WIN cfg = IS_WIN cfg2 \<longrightarrow>
      cmd (runFile_request cfg dir fname) = cmd (runFile_request cfg2 dir2 fname2) \<and>
      butlast (args (runFile_request cfg dir fname)) =
        butlast (args (runFile_request cfg2 dir2 fname2))) \<and>
   (normalized_absolute (cwd cfg) \<and> reachable cfg st \<and> \<not> waitingForKey st \<and>
      key_name ky = Some ''return'' \<and> js_index (entries st) (selected st) = Some cur \<and>
      \<not> isDir cur \<longrightarrow>
      (extname (name cur) = ''.ts'' \<or> extname (name cur) = ''.js'') \<and>
      (\<exists>st'. keypress cfg fs sp (Some ky) st = Inr (Running st') \<and> waitingForKey st' \<and>
         Spawn (runFile_request cfg (currentDir st) (name cur)) \<in> set (out st')) \<and>
      last (args (runFile_request cfg (currentDir st) (name cur))) =
        join (currentDir st) (name cur) \<and>
      spawn_cwd (runFile_request cfg (currentDir st) (name cur)) = currentDir st)"
proof -
  have table: "(extname fname = ''.ts'' \<and> IS_WIN cfg \<longrightarrow>
      cmd (runFile_request cfg dir fname) = ''cmd'' \<and>
      args (runFile_request cfg dir fname) =
        [''/c'', ''npx'', ''tsx'', resolve (cwd cfg) (join dir fname)]) \<and>
   (extname fname = ''.ts'' \<and> \<not> IS_WIN cfg \<longrightarrow>
      cmd (runFile_request cfg dir fname) = ''npx'' \<and>
      args (runFile_request cfg dir fname) = [''tsx'', resolve (cwd cfg) (join dir fname)]) \<and>
   (extname fname = ''.js'' \<and> IS_WIN cfg \<longrightarrow>
      cmd (runFile_request cfg dir fname) = ''cmd'' \<and>
      args (runFile_request cfg dir fname) =
        [''/c'', ''node'', resolve (cwd cfg) (join dir fname)]) \<and>
   (extname fname = ''.js'' \<and> \<not> IS_WIN cfg \<longrightarrow>
      cmd (runFile_request cfg dir fname) = ''node'' \<and>
      args (runFile_request cfg dir fname) = [resolve (cwd cfg) (join dir fname)])"
    by (simp add: runFile_request_def runFile_command_def Let_def)
  have opts: "spawn_cwd (runFile_request cfg dir fname) = dirname (resolve (cwd cfg) (join dir fname)) \<and>
   stdio (runFile_request cfg dir fname) = ''inherit'' \<and>
   \<not> shell (runFile_request cfg dir fname) \<and>
   env (runFile_request cfg dir fname) = process_env cfg"
    by (simp add: runFile_request_def Let_def)
  have pure: "extname fname = extname fname2 \<and> IS_WIN cfg = IS_WIN cfg2 \<longrightarrow>
      cmd (runFile_request cfg dir fname) = cmd (runFile_request cfg2 dir2 fname2) \<and>
      butlast (args (runFile_request cfg dir fname)) =
        butlast (args (runFile_request cfg2 dir2 fname2))"
    by (simp add: runFile_request_def runFile_command_def Let_def)
  have run: "(extname (name cur) = ''.ts'' \<or> extname (name cur) = ''.js'') \<and>
      (\<exists>st'. keypress cfg fs sp (Some ky) st = Inr (Running st') \<and> waitingForKey st' \<and>
         Spawn (runFile_request cfg (currentDir st) (name cur)) \<in> set (out st')) \<and>
      last (args (runFile_request cfg (currentDir st) (name cur))) =
        join (currentDir st) (name cur) \<and>
      spawn_cwd (runFile_request cfg (currentDir st) (name cur)) = currentDir st"
    if h1: "normalized_absolute (cwd cfg)" and h2: "reachable cfg st"
      and h3: "\<not> waitingForKey st" and h4: "key_name ky = Some ''return''"
      and h5: "js_index (entries st) (selected st) = Some cur" and h6: "\<not> isDir cur"
  proof -
    have m: "cur \<in> set (entries st)" using h5 by (rule js_index_in_set)
    have p: "extname (name cur) \<in> set EXTENSIONS"
      "resolve (cwd cfg) (join (currentDir st) (name cur)) = join (currentDir st) (name cur)"
      "dirname (join (currentDir st) (name cur)) = currentDir st"
      using reachable_file_path [OF h1 h2 m h6] by blast+
    have 1: "extname (name cur) = ''.ts'' \<or> extname (name cur) = ''.js''"
      using p(1) by (simp add: EXTENSIONS_def)
    have k: "keypress cfg fs sp (Some ky) st =
        Inr (Running ((runFile cfg sp (name cur) st)\<lparr>waitingForKey := True\<rparr>))"
      using h3 h4 h5 h6 by (rule keypress_return_file)
    have 2: "\<exists>st'. keypress cfg fs sp (Some ky) st = Inr (Running st') \<and> waitingForKey st' \<and>
         Spawn (runFile_request cfg (currentDir st) (name cur)) \<in> set (out st')"
      unfolding k using runFile_spawns [of cfg st "name cur" sp] by simp
    have 3: "last (args (runFile_request cfg (currentDir st) (name cur))) =
        join (currentDir st) (name cur)"
      by (simp add: runFile_request_def runFile_command_def Let_def p(2))
    have 4: "spawn_cwd (runFile_request cfg (currentDir st) (name cur)) = currentDir st"
      by (simp add: runFile_request_def Let_def p(2,3))
    from 1 2 3 4 show ?thesis by blast
  qed
  from table opts pure run show ?thesis by blast
qed

theorem interpreter_by_extension_and_platform_witness:
  "cmd (runFile_request sample_win_cfg ''/tmp/proj'' ''x.ts'') = ''cmd'' \<and>
   args (runFile_request sample_win_cfg ''/tmp/proj'' ''x.ts'') =
     [''/c'', ''npx'', ''tsx'', ''/tmp/proj/x.ts''] \<and>
   (\<exists>st st'. reachable sample_cfg st \<and>
      keypress sample_cfg sample_fs sample_sp (Some \<lparr>key_name = Some ''return'', ctrl = False\<rparr>) st
        = Inr (Running st') \<and>
      Spawn (runFile_request sample_cfg ''/tmp/proj'' ''y.js'') \<in> set (out st')) \<and>
   cmd (runFile_request sample_cfg ''/tmp/proj'' ''y.js'') = ''node'' \<and>
   args (runFile_request sample_cfg ''/tmp/proj'' ''y.js'') = [''/tmp/proj/y.js''] \<and>
   spawn_cwd (runFile_request sample_cfg ''/tmp/proj'' ''y.js'') = ''/tmp/proj'' \<and>
   env (runFile_request sample_cfg ''/tmp/proj'' ''y.js'') = [(''HOME'', ''/home/user'')]"
proof -
  have win: "IS_WIN sample_win_cfg" and nowin: "\<not> IS_WIN sample_cfg"
    by (simp_all add: IS_WIN_def sample_win_cfg_def sample_cfg_def)
  have pe: "process_env sample_cfg = [(''HOME'', ''/home/user'')]" by (simp add: sample_cfg_def)
  note w = interpreter_by_extension_and_platform [where cfg = sample_win_cfg
      and dir = "''/tmp/proj''" and fname = "''x.ts''"]
  have 1: "cmd (runFile_request sample_win_cfg ''/tmp/proj'' ''x.ts'') = ''cmd'' \<and>
      args (runFile_request sample_win_cfg ''/tmp/proj'' ''x.ts'') =
        [''/c'', ''npx'', ''tsx'', ''/tmp/proj/x.ts'']"
    using w win ext1(2) unfolding sample_full_path by blast
  obtain st where r: "reachable sample_cfg st" and nw: "\<not> waitingForKey st"
    and cd: "currentDir st = ''/tmp/proj''"
    and i: "js_index (entries st) (selected st) = Some \<lparr>name = ''y.js'', isDir = False\<rparr>"
    using sample_reachable_on_file by blast
  note l = interpreter_by_extension_and_platform [where cfg = sample_cfg
      and dir = "''/tmp/proj''" and fname = "''y.js''" and st = st and fs = sample_fs
      and sp = sample_sp and ky = "\<lparr>key_name = Some ''return'', ctrl = False\<rparr>"
      and cur = "\<lparr>name = ''y.js'', isDir = False\<rparr>"]
  have h: "normalized_absolute (cwd sample_cfg) \<and> reachable sample_cfg st \<and> \<not> waitingForKey st \<and>
      key_name \<lparr>key_name = Some ''return'', ctrl = False\<rparr> = Some ''return'' \<and>
      js_index (entries st) (selected st) = Some \<lparr>name = ''y.js'', isDir = False\<rparr> \<and>
      \<not> isDir \<lparr>name = ''y.js'', isDir = False\<rparr>"
    using sample_cwd_normal r nw i by simp
  have 2: "\<exists>st'. keypress sample_cfg sample_fs sample_sp
        (Some \<lparr>key_name = Some ''return'', ctrl = False\<rparr>) st = Inr (Running st') \<and>
      Spawn (runFile_request sample_cfg ''/tmp/proj'' ''y.js'') \<in> set (out st')"
  proof -
    from l h have "\<exists>st'. keypress sample_cfg sample_fs sample_sp
          (Some \<lparr>key_name = Some ''return'', ctrl = False\<rparr>) st = Inr (Running st') \<and>
        waitingForKey st' \<and>
        Spawn (runFile_request sample_cfg (currentDir st) (name \<lparr>name = ''y.js'', isDir = False\<rparr>))
          \<in> set (out st')"
      by blast
    then show ?thesis unfolding cd by auto
  qed
  have 3: "cmd (runFile_request sample_cfg ''/tmp/proj'' ''y.js'') = ''node'' \<and>
      args (runFile_request sample_cfg ''/tmp/proj'' ''y.js'') = [''/tmp/proj/y.js'']"
    using l nowin ext1(1) unfolding sample_full_path by blast
  have 4: "spawn_cwd (runFile_request sample_cfg ''/tmp/proj'' ''y.js'') = ''/tmp/proj''"
    using l unfolding sample_full_path sample_dirname by blast
  have 5: "env (runFile_request sample_cfg ''/tmp/proj'' ''y.js'') = [(''HOME'', ''/home/user'')]"
    using l unfolding pe by blast
  from 1 r 2 3 4 5 show ?thesis by blast
qed

end
